theory Spec2Isabelle
  imports Complex_Main
begin

section \<open>Data model\<close>

text \<open>
  A timestamp is a wall-clock reading at second resolution, counted in seconds. The store
  keeps timestamps as RFC3339 text and SQLite compares the texts byte by byte. Every
  writer formats \<open>time.Now().UTC()\<close>, so a stored text is the UTC reading followed by
  \<open>Z\<close>, and the reading is the instant. The nineteen characters of the reading have a
  fixed width, so two texts with different readings are ordered as their readings are.
\<close>

type_synonym timestamp = int

datatype err =
    StoreError
  | ConstraintFailed
  | SearchFailed string
  | NoResultsFound string int
  | UnknownMediaType string
  | NoRecommendationsResolved

text \<open>Table \<open>recommendation_history\<close>, unique on (label, tmdb_id, media_type).\<close>

record history_row =
  h_label :: string
  h_tmdb_id :: int
  h_media_type :: string
  first_seen_at :: timestamp
  last_seen_at :: timestamp

text \<open>\<open>store.TitleResolution\<close>; a row of \<open>title_resolution_cache\<close> is one of these
  with its \<open>resolved_at\<close>.\<close>

record TitleResolution =
  c_Title :: string
  c_Year :: int
  c_MediaType :: string
  c_TMDbID :: int
  c_IMDbID :: string
  c_Country :: string
  c_RuntimeMin :: int

type_synonym cache_row = "TitleResolution \<times> timestamp"

text \<open>Table \<open>plex_inventory\<close>, unique on (tmdb_id, media_type).\<close>

record inventory_row =
  p_tmdb_id :: int
  p_media_type :: string
  present_at :: timestamp

text \<open>\<open>tmdb.TitleResult\<close>.\<close>

record TitleResult =
  r_TMDbID :: int
  r_IMDbID :: string
  r_Title :: string
  r_Year :: int
  r_MediaType :: string
  r_Overview :: string
  r_Genres :: "string list"
  r_Keywords :: "string list"
  r_VoteCount :: int
  r_VoteAvg :: real
  r_RuntimeMin :: int
  r_Country :: string

text \<open>\<open>llm.Recommendation\<close>, one candidate.\<close>

record Recommendation =
  rec_Title :: string
  rec_Year :: int
  rec_Medium :: string
  rec_Why :: string
  rec_Keywords :: "string list"

text \<open>\<open>resolve.ResolvedItem\<close> and \<open>resolve.ResolvedOutput\<close>.\<close>

record ResolvedItem =
  i_Title :: string
  i_Year :: int
  i_Medium :: string
  i_TMDbID :: int
  i_IMDbID :: string
  i_RuntimeMin :: int
  i_VoteCount :: int
  i_VoteAvg :: real
  i_Why :: string
  i_Keywords :: "string list"
  i_Genres :: "string list"

record ResolvedOutput =
  o_Category :: string
  o_ResolvedAt :: timestamp
  o_Items :: "ResolvedItem list"

text \<open>What the catalog provider (the TMDb client library) answers. A search hit
  carries the movie's \<open>Title\<close> or the show's \<open>Name\<close> in \<open>hit_Name\<close>.\<close>

record search_hit =
  hit_ID :: int
  hit_Name :: string
  hit_Overview :: string
  hit_VoteCount :: int
  hit_VoteAverage :: real

record movie_details =
  md_IMDbID :: string
  md_Runtime :: int
  md_Genres :: "string list"
  md_ProductionCountries :: "string list"

record tv_details =
  td_Genres :: "string list"
  td_EpisodeRunTime :: "int list"
  td_OriginCountry :: "string list"

section \<open>The world the code runs in\<close>

text \<open>
  The state: the three tables (rows in insertion order), the log of calls made to the
  catalog provider, and the number of effects performed so far. Every store operation,
  provider call and reading of the clock is one effect.
\<close>

datatype call =
    SearchMovies string int
  | MovieDetails int
  | MovieKeywords int
  | SearchTVShow string int
  | TVDetails int
  | TVKeywords int

record world =
  history :: "history_row list"
  cache :: "cache_row list"
  inventory :: "inventory_row list"
  calls :: "call list"
  step :: nat

datatype dbop =
    TxBegin | TxDelete | TxPrepare | TxInsert | TxCommit
  | InventoryCount | HistoryUpsert | HistorySelect | CacheInsert | CacheSelect

text \<open>
  The environment, everything the code takes from outside, each as a function of the
  number of the effect at which it is used:
  \<^item> \<open>clock\<close>: the instant \<open>time.Now()\<close> reads (seconds, UTC);
  \<^item> \<open>utc_offset\<close>: the offset of the zone of the process east of UTC, in seconds,
    so that the local reading of \<open>time.Now()\<close> is \<open>clock + utc_offset\<close>;
  \<^item> \<open>db_fails\<close>: whether the database statement issued as that effect fails;
  \<^item> the six calls of the catalog provider (the TMDb client library); a call answers
    \<open>Inl\<close> with the error text when it fails, and the same query may be answered
    differently at different effects.

  \<open>ToLower\<close> is the Go library's \<open>strings.ToLower\<close>, taken as it is.
\<close>

record env =
  clock :: "nat \<Rightarrow> timestamp"
  utc_offset :: "nat \<Rightarrow> int"
  db_fails :: "dbop \<Rightarrow> nat \<Rightarrow> bool"
  ToLower :: "string \<Rightarrow> string"
  GetSearchMovies :: "nat \<Rightarrow> string \<Rightarrow> int \<Rightarrow> string + search_hit list"
  GetMovieDetails :: "nat \<Rightarrow> int \<Rightarrow> string + movie_details"
  GetMovieKeywords :: "nat \<Rightarrow> int \<Rightarrow> string + string list"
  GetSearchTVShow :: "nat \<Rightarrow> string \<Rightarrow> int \<Rightarrow> string + search_hit list"
  GetTVDetails :: "nat \<Rightarrow> int \<Rightarrow> string + tv_details"
  GetTVKeywords :: "nat \<Rightarrow> int \<Rightarrow> string + string list"

definition tick :: "world \<Rightarrow> world" where
  "tick w = w\<lparr>step := Suc (step w)\<rparr>"

definition log_call :: "call \<Rightarrow> world \<Rightarrow> world" where
  "log_call c w = w\<lparr>calls := calls w @ [c], step := Suc (step w)\<rparr>"

text \<open>The schema's \<open>CHECK (media_type IN ('movie','tv'))\<close>.\<close>

definition media_ok :: "string \<Rightarrow> bool" where
  "media_ok m = (m = ''movie'' \<or> m = ''tv'')"

section \<open>Store\<close>

definition hkey :: "history_row \<Rightarrow> string \<times> int \<times> string" where
  "hkey r = (h_label r, h_tmdb_id r, h_media_type r)"

definition pkey :: "inventory_row \<Rightarrow> int \<times> string" where
  "pkey r = (p_tmdb_id r, p_media_type r)"

definition bump_last_seen :: "string \<times> int \<times> string \<Rightarrow> timestamp \<Rightarrow> history_row \<Rightarrow> history_row" where
  "bump_last_seen k t r = (if hkey r = k then r\<lparr>last_seen_at := t\<rparr> else r)"

text \<open>
  \<open>Store.RecordRecommendation\<close>: one statement,
  \<open>INSERT ... ON CONFLICT(label, tmdb_id, media_type) DO UPDATE SET last_seen_at = ?\<close>,
  with \<open>now\<close> bound to both timestamps of the new row and to the update.
\<close>

definition RecordRecommendation ::
  "env \<Rightarrow> string \<Rightarrow> int \<Rightarrow> string \<Rightarrow> world \<Rightarrow> err option \<times> world" where
  "RecordRecommendation e label tmdbID mediaType w =
     (let now = clock e (step w); w' = tick w in
      if db_fails e HistoryUpsert (step w) then (Some StoreError, w')
      else if \<not> media_ok mediaType then (Some ConstraintFailed, w')
      else if (label, tmdbID, mediaType) \<in> set (map hkey (history w))
        then (None, w'\<lparr>history := map (bump_last_seen (label, tmdbID, mediaType) now) (history w)\<rparr>)
        else (None, w'\<lparr>history := history w @
               [\<lparr>h_label = label, h_tmdb_id = tmdbID, h_media_type = mediaType,
                 first_seen_at = now, last_seen_at = now\<rparr>]\<rparr>))"

text \<open>A sequence of \<open>RecordRecommendation\<close> calls, each result discarded.\<close>

fun RecordRecommendations :: "env \<Rightarrow> (string \<times> int \<times> string) list \<Rightarrow> world \<Rightarrow> world" where
  "RecordRecommendations e [] w = w"
| "RecordRecommendations e ((label, tmdbID, mediaType) # ks) w =
     RecordRecommendations e ks (snd (RecordRecommendation e label tmdbID mediaType w))"

text \<open>
  \<open>Store.GetRecommendationsSince\<close>:
  \<open>SELECT tmdb_id FROM recommendation_history WHERE label = ? AND last_seen_at >= ?\<close>,
  collected into a \<open>map[int]bool\<close> whose values are all \<open>true\<close>: a set of ids.
  The bound is the text \<open>since.Format(time.RFC3339)\<close>: the reading of \<open>since\<close> in
  its own zone, followed by \<open>Z\<close> or by the offset of the zone. A stored text with
  another reading compares as the readings do; one with the same reading is not below
  the bound, its \<open>Z\<close> being above \<open>+\<close> and \<open>-\<close>. So a row is selected when its
  reading is not below the reading of the bound, which is the argument \<open>since\<close> here.
\<close>

definition in_window :: "string \<Rightarrow> timestamp \<Rightarrow> history_row \<Rightarrow> bool" where
  "in_window label since r = (h_label r = label \<and> since \<le> last_seen_at r)"

definition GetRecommendationsSince ::
  "env \<Rightarrow> string \<Rightarrow> timestamp \<Rightarrow> world \<Rightarrow> (err + int set) \<times> world" where
  "GetRecommendationsSince e label since w =
     (if db_fails e HistorySelect (step w) then (Inl StoreError, tick w)
      else (Inr (set (map h_tmdb_id (filter (in_window label since) (history w)))), tick w))"

text \<open>
  \<open>Store.CacheTitleResolution\<close>: a plain \<open>INSERT\<close>; the table has no unique index.
\<close>

definition CacheTitleResolution :: "env \<Rightarrow> TitleResolution \<Rightarrow> world \<Rightarrow> err option \<times> world" where
  "CacheTitleResolution e tr w =
     (let now = clock e (step w); w' = tick w in
      if db_fails e CacheInsert (step w) then (Some StoreError, w')
      else if \<not> media_ok (c_MediaType tr) then (Some ConstraintFailed, w')
      else (None, w'\<lparr>cache := cache w @ [(tr, now)]\<rparr>))"

text \<open>
  \<open>ORDER BY resolved_at DESC LIMIT 1\<close>: a row with the greatest \<open>resolved_at\<close>;
  among equals the one inserted first, as a scan in rowid order through the sorter gives.
\<close>

fun latest :: "cache_row list \<Rightarrow> cache_row option" where
  "latest [] = None"
| "latest (r # rs) =
     (case latest rs of
        None \<Rightarrow> Some r
      | Some b \<Rightarrow> if snd r < snd b then Some b else Some r)"

definition cache_match :: "string \<Rightarrow> int \<Rightarrow> string \<Rightarrow> cache_row \<Rightarrow> bool" where
  "cache_match title year mediaType r =
     (c_Title (fst r) = title \<and> c_Year (fst r) = year \<and> c_MediaType (fst r) = mediaType)"

text \<open>\<open>Store.GetTitleResolution\<close>: \<open>Inr None\<close> is \<open>(nil, nil)\<close>, no row.\<close>

definition GetTitleResolution ::
  "env \<Rightarrow> string \<Rightarrow> int \<Rightarrow> string \<Rightarrow> world \<Rightarrow> (err + TitleResolution option) \<times> world" where
  "GetTitleResolution e title year mediaType w =
     (if db_fails e CacheSelect (step w) then (Inl StoreError, tick w)
      else (Inr (map_option fst (latest (filter (cache_match title year mediaType) (cache w)))),
            tick w))"

text \<open>
  \<open>Store.IsInPlexInventory\<close>:
  \<open>SELECT COUNT(*) FROM plex_inventory WHERE tmdb_id = ? AND media_type = ?\<close>;
  on an error \<open>count\<close> keeps its zero value, so the result is \<open>(false, err)\<close>.
\<close>

definition IsInPlexInventory ::
  "env \<Rightarrow> int \<Rightarrow> string \<Rightarrow> world \<Rightarrow> (bool \<times> err option) \<times> world" where
  "IsInPlexInventory e tmdbID mediaType w =
     (if db_fails e InventoryCount (step w) then ((False, Some StoreError), tick w)
      else ((0 < length (filter (\<lambda>r. pkey r = (tmdbID, mediaType)) (inventory w)), None), tick w))"

text \<open>
  \<open>Store.UpdatePlexInventory\<close>. The statements run inside one transaction on a working
  copy of the table; \<open>insert_items\<close> is the loop over \<open>stmt.Exec\<close>, returning the error
  (if any), the working copy and the effect counter. An insert fails on a database
  error, on the \<open>CHECK\<close> of the media type and on the unique index
  (tmdb_id, media_type).
\<close>

fun insert_items ::
  "env \<Rightarrow> timestamp \<Rightarrow> (int \<times> string) list \<Rightarrow> nat \<Rightarrow> inventory_row list
    \<Rightarrow> err option \<times> inventory_row list \<times> nat" where
  "insert_items e now [] n work = (None, work, n)"
| "insert_items e now ((tmdbID, mediaType) # items) n work =
     (if db_fails e TxInsert n then (Some StoreError, work, Suc n)
      else if \<not> media_ok mediaType then (Some ConstraintFailed, work, Suc n)
      else if (tmdbID, mediaType) \<in> set (map pkey work) then (Some ConstraintFailed, work, Suc n)
      else insert_items e now items (Suc n)
             (work @ [\<lparr>p_tmdb_id = tmdbID, p_media_type = mediaType, present_at = now\<rparr>]))"

text \<open>
  Every early \<open>return err\<close> runs the deferred \<open>tx.Rollback()\<close>, which discards the
  working copy; only \<open>tx.Commit()\<close> installs it.
\<close>

definition UpdatePlexInventory ::
  "env \<Rightarrow> (int \<times> string) list \<Rightarrow> world \<Rightarrow> err option \<times> world" where
  "UpdatePlexInventory e items w =
     (let n = step w in
      if db_fails e TxBegin n then (Some StoreError, w\<lparr>step := n + 1\<rparr>)
      else if db_fails e TxDelete (n + 1) then (Some StoreError, w\<lparr>step := n + 2\<rparr>)
      else if db_fails e TxPrepare (n + 2) then (Some StoreError, w\<lparr>step := n + 3\<rparr>)
      else
        (case insert_items e (clock e (n + 3)) items (n + 4) [] of
           (Some er, work, n') \<Rightarrow> (Some er, w\<lparr>step := n'\<rparr>)
         | (None, work, n') \<Rightarrow>
             if db_fails e TxCommit n' then (Some StoreError, w\<lparr>step := Suc n'\<rparr>)
             else (None, w\<lparr>inventory := work, step := Suc n'\<rparr>)))"

section \<open>Catalog client (package tmdb)\<close>

text \<open>
  The client is the one \<open>NewClient\<close> builds with the orchestrator's store, so
  \<open>c.store\<close> is never \<open>nil\<close>.
\<close>

definition first_or_empty :: "string list \<Rightarrow> string" where
  "first_or_empty xs = (case xs of [] \<Rightarrow> [] | x # _ \<Rightarrow> x)"

definition first_or_zero :: "int list \<Rightarrow> int" where
  "first_or_zero xs = (case xs of [] \<Rightarrow> 0 | x # _ \<Rightarrow> x)"

definition keyword_list :: "string + string list \<Rightarrow> string list" where
  "keyword_list k = (case k of Inl _ \<Rightarrow> [] | Inr names \<Rightarrow> names)"

definition searchMovie ::
  "env \<Rightarrow> string \<Rightarrow> int \<Rightarrow> world \<Rightarrow> (err + TitleResult) \<times> world" where
  "searchMovie e title year w =
     (let w1 = log_call (SearchMovies title year) w in
      case GetSearchMovies e (step w) title year of
        Inl msg \<Rightarrow> (Inl (SearchFailed msg), w1)
      | Inr [] \<Rightarrow> (Inl (NoResultsFound title year), w1)
      | Inr (movie # _) \<Rightarrow>
          (let w2 = log_call (MovieDetails (hit_ID movie)) w1;
               details = GetMovieDetails e (step w1) (hit_ID movie);
               w3 = log_call (MovieKeywords (hit_ID movie)) w2;
               keywordList = keyword_list (GetMovieKeywords e (step w2) (hit_ID movie));
               result = \<lparr>r_TMDbID = hit_ID movie, r_IMDbID = [], r_Title = hit_Name movie,
                         r_Year = year, r_MediaType = ''movie'', r_Overview = hit_Overview movie,
                         r_Genres = [], r_Keywords = keywordList,
                         r_VoteCount = hit_VoteCount movie, r_VoteAvg = hit_VoteAverage movie,
                         r_RuntimeMin = 0, r_Country = []\<rparr>
           in (Inr (case details of
                      Inl _ \<Rightarrow> result
                    | Inr d \<Rightarrow> result\<lparr>r_IMDbID := md_IMDbID d, r_RuntimeMin := md_Runtime d,
                                       r_Genres := md_Genres d,
                                       r_Country := first_or_empty (md_ProductionCountries d)\<rparr>),
               w3)))"

definition searchTV ::
  "env \<Rightarrow> string \<Rightarrow> int \<Rightarrow> world \<Rightarrow> (err + TitleResult) \<times> world" where
  "searchTV e title year w =
     (let w1 = log_call (SearchTVShow title year) w in
      case GetSearchTVShow e (step w) title year of
        Inl msg \<Rightarrow> (Inl (SearchFailed msg), w1)
      | Inr [] \<Rightarrow> (Inl (NoResultsFound title year), w1)
      | Inr (show # _) \<Rightarrow>
          (let w2 = log_call (TVDetails (hit_ID show)) w1;
               details = GetTVDetails e (step w1) (hit_ID show);
               w3 = log_call (TVKeywords (hit_ID show)) w2;
               keywordList = keyword_list (GetTVKeywords e (step w2) (hit_ID show));
               result = \<lparr>r_TMDbID = hit_ID show, r_IMDbID = [], r_Title = hit_Name show,
                         r_Year = year, r_MediaType = ''tv'', r_Overview = hit_Overview show,
                         r_Genres = [], r_Keywords = keywordList,
                         r_VoteCount = hit_VoteCount show, r_VoteAvg = hit_VoteAverage show,
                         r_RuntimeMin = 0, r_Country = []\<rparr>
           in (Inr (case details of
                      Inl _ \<Rightarrow> result
                    | Inr d \<Rightarrow> result\<lparr>r_Genres := td_Genres d,
                                       r_RuntimeMin := first_or_zero (td_EpisodeRunTime d),
                                       r_Country := first_or_empty (td_OriginCountry d)\<rparr>),
               w3)))"

definition cached_result :: "TitleResolution \<Rightarrow> TitleResult" where
  "cached_result cached =
     \<lparr>r_TMDbID = c_TMDbID cached, r_IMDbID = c_IMDbID cached, r_Title = c_Title cached,
      r_Year = c_Year cached, r_MediaType = c_MediaType cached, r_Overview = [],
      r_Genres = [], r_Keywords = [], r_VoteCount = 0, r_VoteAvg = 0,
      r_RuntimeMin = c_RuntimeMin cached, r_Country = c_Country cached\<rparr>"

definition getCached ::
  "env \<Rightarrow> string \<Rightarrow> int \<Rightarrow> string \<Rightarrow> world \<Rightarrow> TitleResult option \<times> world" where
  "getCached e title year mediaType w =
     (case GetTitleResolution e title year mediaType w of
        (Inl _, w') \<Rightarrow> (None, w')
      | (Inr None, w') \<Rightarrow> (None, w')
      | (Inr (Some cached), w') \<Rightarrow> (Some (cached_result cached), w'))"

definition resolution_of :: "TitleResult \<Rightarrow> TitleResolution" where
  "resolution_of result =
     \<lparr>c_Title = r_Title result, c_Year = r_Year result, c_MediaType = r_MediaType result,
      c_TMDbID = r_TMDbID result, c_IMDbID = r_IMDbID result, c_Country = r_Country result,
      c_RuntimeMin = r_RuntimeMin result\<rparr>"

text \<open>\<open>Client.cacheResult\<close>: a failed write is logged and dropped.\<close>

definition cacheResult :: "env \<Rightarrow> TitleResult \<Rightarrow> world \<Rightarrow> world" where
  "cacheResult e result w = snd (CacheTitleResolution e (resolution_of result) w)"

definition SearchAndResolve ::
  "env \<Rightarrow> string \<Rightarrow> int \<Rightarrow> string \<Rightarrow> world \<Rightarrow> (err + TitleResult) \<times> world" where
  "SearchAndResolve e title year mediaType w =
     (case getCached e title year mediaType w of
        (Some cached, w1) \<Rightarrow> (Inr cached, w1)
      | (None, w1) \<Rightarrow>
          if mediaType = ''movie'' then
            (case searchMovie e title year w1 of
               (Inl er, w2) \<Rightarrow> (Inl er, w2)
             | (Inr result, w2) \<Rightarrow> (Inr result, cacheResult e result w2))
          else if mediaType = ''tv'' then
            (case searchTV e title year w1 of
               (Inl er, w2) \<Rightarrow> (Inl er, w2)
             | (Inr result, w2) \<Rightarrow> (Inr result, cacheResult e result w2))
          else (Inl (UnknownMediaType mediaType), w1))"

section \<open>Resolution pipeline (package resolve)\<close>

text \<open>The normalisation of the medium at the head of the loop of \<open>Resolver.Resolve\<close>.\<close>

definition normalize_medium :: "env \<Rightarrow> string \<Rightarrow> string" where
  "normalize_medium e medium =
     (let mediaType = ToLower e medium in
      if mediaType = ''show'' \<or> mediaType = ''series'' then ''tv'' else mediaType)"

text \<open>
  \<open>since := time.Now().AddDate(0, 0, -60)\<close> is the local time sixty calendar days
  earlier: its reading in the zone of the process is the local reading of now less sixty
  days of 86400 seconds (a reading that a change of the zone's offset skips is
  normalised by the library; that case is left aside). \<open>Resolve\<close> does not convert
  \<open>since\<close> to UTC, so the bound of the query is this local reading.
\<close>

definition sixty_days :: int where
  "sixty_days = 60 * 86400"

definition local_since :: "env \<Rightarrow> world \<Rightarrow> timestamp" where
  "local_since e w = clock e (step w) + utc_offset e (step w) - sixty_days"

definition make_item :: "TitleResult \<Rightarrow> string \<Rightarrow> Recommendation \<Rightarrow> ResolvedItem" where
  "make_item result mediaType rec =
     \<lparr>i_Title = r_Title result, i_Year = r_Year result, i_Medium = mediaType,
      i_TMDbID = r_TMDbID result, i_IMDbID = r_IMDbID result,
      i_RuntimeMin = r_RuntimeMin result, i_VoteCount = r_VoteCount result,
      i_VoteAvg = r_VoteAvg result, i_Why = rec_Why rec, i_Keywords = rec_Keywords rec,
      i_Genres = r_Genres result\<rparr>"

text \<open>
  One pass of the loop of \<open>Resolver.Resolve\<close> over the state
  (world, \<open>alreadyRecommended\<close>, \<open>resolved\<close>); each \<open>continue\<close> returns the state with
  only the world advanced.
\<close>

definition resolve_one ::
  "env \<Rightarrow> string \<Rightarrow> Recommendation \<Rightarrow> world \<times> int set \<times> ResolvedItem list
    \<Rightarrow> world \<times> int set \<times> ResolvedItem list" where
  "resolve_one e categoryLabel rec st =
     (case st of (w, alreadyRecommended, resolved) \<Rightarrow>
      (let mediaType = normalize_medium e (rec_Medium rec) in
       case SearchAndResolve e (rec_Title rec) (rec_Year rec) mediaType w of
         (Inl _, w1) \<Rightarrow> (w1, alreadyRecommended, resolved)
       | (Inr result, w1) \<Rightarrow>
           if r_TMDbID result \<in> alreadyRecommended then (w1, alreadyRecommended, resolved)
           else
             (case IsInPlexInventory e (r_TMDbID result) mediaType w1 of
                ((inPlex, _), w2) \<Rightarrow>
                  if inPlex then (w2, alreadyRecommended, resolved)
                  else
                    (snd (RecordRecommendation e categoryLabel (r_TMDbID result) mediaType w2),
                     insert (r_TMDbID result) alreadyRecommended,
                     resolved @ [make_item result mediaType rec]))))"

fun resolve_all ::
  "env \<Rightarrow> string \<Rightarrow> Recommendation list \<Rightarrow> world \<times> int set \<times> ResolvedItem list
    \<Rightarrow> world \<times> int set \<times> ResolvedItem list" where
  "resolve_all e categoryLabel [] st = st"
| "resolve_all e categoryLabel (rec # recs) st =
     resolve_all e categoryLabel recs (resolve_one e categoryLabel rec st)"

text \<open>
  \<open>Resolver.Resolve\<close>, on the \<open>Recommendations\<close> of the response (the only field it
  reads). A failed load of the history leaves \<open>alreadyRecommended\<close> empty.
\<close>

definition Resolve ::
  "env \<Rightarrow> Recommendation list \<Rightarrow> string \<Rightarrow> world \<Rightarrow> (err + ResolvedOutput) \<times> world" where
  "Resolve e recommendations categoryLabel w =
     (let since = local_since e w in
      case GetRecommendationsSince e categoryLabel since (tick w) of
        (got, w1) \<Rightarrow>
          (let alreadyRecommended = (case got of Inl _ \<Rightarrow> {} | Inr ids \<Rightarrow> ids) in
           case resolve_all e categoryLabel recommendations (w1, alreadyRecommended, []) of
             (w2, seen, resolved) \<Rightarrow>
               if resolved = [] then (Inl NoRecommendationsResolved, w2)
               else (Inr \<lparr>o_Category = categoryLabel, o_ResolvedAt = clock e (step w2),
                          o_Items = resolved\<rparr>, tick w2)))"

section \<open>Notions used in the statements\<close>

text \<open>The rows of the history table under one key.\<close>

definition rows_of :: "string \<times> int \<times> string \<Rightarrow> world \<Rightarrow> history_row list" where
  "rows_of k w = filter (\<lambda>r. hkey r = k) (history w)"

text \<open>
  The set \<open>alreadyRecommended\<close> holds when the loop of \<open>Resolve\<close> starts, the state
  the loop ends in, and the list \<open>resolved\<close> it has built by then.
\<close>

definition loaded :: "env \<Rightarrow> string \<Rightarrow> world \<Rightarrow> int set" where
  "loaded e cat w =
     (case fst (GetRecommendationsSince e cat (local_since e w) (tick w)) of
        Inl _ \<Rightarrow> {} | Inr ids \<Rightarrow> ids)"

definition loop_end ::
  "env \<Rightarrow> Recommendation list \<Rightarrow> string \<Rightarrow> world \<Rightarrow> world \<times> int set \<times> ResolvedItem list" where
  "loop_end e recs cat w = resolve_all e cat recs (tick (tick w), loaded e cat w, [])"

definition survivors :: "env \<Rightarrow> Recommendation list \<Rightarrow> string \<Rightarrow> world \<Rightarrow> ResolvedItem list" where
  "survivors e recs cat w = snd (snd (loop_end e recs cat w))"

text \<open>
  The loop invariant: what \<open>resolved\<close> holds, relative to the set loaded at the start
  (\<open>S0\<close>) and the inventory at the start (\<open>inv0\<close>).
\<close>

definition loop_inv ::
  "env \<Rightarrow> int set \<Rightarrow> inventory_row list \<Rightarrow> world \<times> int set \<times> ResolvedItem list \<Rightarrow> bool" where
  "loop_inv e S0 inv0 st =
     (case st of (w, seen, out) \<Rightarrow>
        inventory w = inv0 \<and> S0 \<subseteq> seen \<and> set (map i_TMDbID out) \<subseteq> seen - S0 \<and>
        distinct (map i_TMDbID out) \<and>
        ((\<forall>n. \<not> db_fails e InventoryCount n) \<longrightarrow>
           (\<forall>it \<in> set out. (i_TMDbID it, i_Medium it) \<notin> set (map pkey inv0))))"

text \<open>
  The catalog is steady: each of the six provider calls answers a query alike at every
  effect.
\<close>

definition steady_catalog :: "env \<Rightarrow> bool" where
  "steady_catalog e =
     (\<forall>n. GetSearchMovies e n = GetSearchMovies e 0
        \<and> GetMovieDetails e n = GetMovieDetails e 0
        \<and> GetMovieKeywords e n = GetMovieKeywords e 0
        \<and> GetSearchTVShow e n = GetSearchTVShow e 0
        \<and> GetTVDetails e n = GetTVDetails e 0
        \<and> GetTVKeywords e n = GetTVKeywords e 0)"

section \<open>Example data\<close>

definition hit :: "int \<Rightarrow> string \<Rightarrow> search_hit" where
  "hit i name =
     \<lparr>hit_ID = i, hit_Name = name, hit_Overview = [], hit_VoteCount = 0, hit_VoteAverage = 0\<rparr>"

text \<open>
  The lowering of the letters A to Z, other bytes kept: what \<open>strings.ToLower\<close> does on
  ASCII text. The examples take it for \<open>ToLower\<close>; their media are ASCII.
\<close>

definition lower_char :: "char \<Rightarrow> char" where
  "lower_char c =
     (let n = (of_char c :: nat) in if 65 \<le> n \<and> n \<le> 90 then char_of (n + 32) else c)"

definition ascii_lower :: "string \<Rightarrow> string" where
  "ascii_lower s = map lower_char s"

text \<open>
  A small catalog that answers a query alike at every effect and whose details and
  keywords calls always fail; the process runs in UTC.
\<close>

definition catalog_env :: "(nat \<Rightarrow> timestamp) \<Rightarrow> (dbop \<Rightarrow> nat \<Rightarrow> bool) \<Rightarrow> env" where
  "catalog_env clk fails =
     \<lparr>clock = clk, utc_offset = (\<lambda>n. 0), db_fails = fails, ToLower = ascii_lower,
      GetSearchMovies = (\<lambda>n title year.
         if title = ''Inside Job'' then Inr [hit 44639 ''Inside Job'']
         else if title = ''inside job'' then Inr [hit 44639 ''Inside Job'']
         else if title = ''Offline'' then Inl ''connection refused''
         else Inr []),
      GetMovieDetails = (\<lambda>n i. Inl ''timeout''),
      GetMovieKeywords = (\<lambda>n i. Inl ''timeout''),
      GetSearchTVShow = (\<lambda>n title year.
         if title = ''Chernobyl'' then Inr [hit 87108 ''Chernobyl'']
         else if title = ''Oz'' then Inr [hit 99 ''Oz'']
         else if title = ''Namesake'' then Inr [hit 44639 ''Namesake'']
         else Inr []),
      GetTVDetails = (\<lambda>n i. Inl ''timeout''),
      GetTVKeywords = (\<lambda>n i. Inl ''timeout'')\<rparr>"

definition no_faults :: "dbop \<Rightarrow> nat \<Rightarrow> bool" where
  "no_faults op n = False"

definition frozen_env :: env where
  "frozen_env = catalog_env (\<lambda>n. 1700000000) no_faults"

text \<open>A clock that advances ten days with every effect.\<close>

definition ten_day_env :: env where
  "ten_day_env = catalog_env (\<lambda>n. 1700000000 + 864000 * int n) no_faults"

definition empty_world :: world where
  "empty_world = \<lparr>history = [], cache = [], inventory = [], calls = [], step = 0\<rparr>"

definition candidate :: "string \<Rightarrow> int \<Rightarrow> string \<Rightarrow> Recommendation" where
  "candidate title year medium =
     \<lparr>rec_Title = title, rec_Year = year, rec_Medium = medium, rec_Why = [], rec_Keywords = []\<rparr>"

definition plain_item :: "string \<Rightarrow> int \<Rightarrow> string \<Rightarrow> int \<Rightarrow> ResolvedItem" where
  "plain_item title year medium tmdbID =
     \<lparr>i_Title = title, i_Year = year, i_Medium = medium, i_TMDbID = tmdbID, i_IMDbID = [],
      i_RuntimeMin = 0, i_VoteCount = 0, i_VoteAvg = 0, i_Why = [], i_Keywords = [],
      i_Genres = []\<rparr>"

definition chernobyl_twice :: "Recommendation list" where
  "chernobyl_twice = [candidate ''Chernobyl'' 2019 ''tv'', candidate ''Chernobyl'' 2019 ''tv'']"

definition chernobyl_world :: world where
  "chernobyl_world =
     \<lparr>history = [\<lparr>h_label = ''Docudrama'', h_tmdb_id = 87108, h_media_type = ''tv'',
                  first_seen_at = 1700000000, last_seen_at = 1700000000\<rparr>],
      cache = [(\<lparr>c_Title = ''Chernobyl'', c_Year = 2019, c_MediaType = ''tv'', c_TMDbID = 87108,
                 c_IMDbID = [], c_Country = [], c_RuntimeMin = 0\<rparr>, 1700000000)],
      inventory = [], calls = [SearchTVShow ''Chernobyl'' 2019, TVDetails 87108, TVKeywords 87108],
      step = 11\<rparr>"

text \<open>Id 42 under "True Crime", recorded once and once more.\<close>

definition true_crime_once :: world where
  "true_crime_once =
     \<lparr>history = [\<lparr>h_label = ''True Crime'', h_tmdb_id = 42, h_media_type = ''movie'',
                  first_seen_at = 1700000000, last_seen_at = 1700000000\<rparr>],
      cache = [], inventory = [], calls = [], step = 1\<rparr>"

definition true_crime_twice :: world where
  "true_crime_twice =
     \<lparr>history = [\<lparr>h_label = ''True Crime'', h_tmdb_id = 42, h_media_type = ''movie'',
                  first_seen_at = 1700000000, last_seen_at = 1700864000\<rparr>],
      cache = [], inventory = [], calls = [], step = 2\<rparr>"

text \<open>A library holding movie 99, and a history holding show 87108.\<close>

definition movie99_world :: world where
  "movie99_world =
     \<lparr>history = [\<lparr>h_label = ''Prison Drama'', h_tmdb_id = 87108, h_media_type = ''tv'',
                  first_seen_at = 1699000000, last_seen_at = 1699000000\<rparr>],
      cache = [],
      inventory = [\<lparr>p_tmdb_id = 99, p_media_type = ''movie'', present_at = 1699000000\<rparr>],
      calls = [], step = 0\<rparr>"

definition oz_and_chernobyl :: "Recommendation list" where
  "oz_and_chernobyl = [candidate ''Oz'' 1997 ''tv'', candidate ''Chernobyl'' 2019 ''tv'']"

definition oz_output :: ResolvedOutput where
  "oz_output = \<lparr>o_Category = ''Prison Drama'', o_ResolvedAt = 1700000000,
                 o_Items = [plain_item ''Oz'' 1997 ''tv'' 99]\<rparr>"




text \<open>The row \<open>UpdatePlexInventory\<close> inserts for one item of the new snapshot.\<close>

definition snapshot_row :: "timestamp \<Rightarrow> int \<times> string \<Rightarrow> inventory_row" where
  "snapshot_row now item = \<lparr>p_tmdb_id = fst item, p_media_type = snd item, present_at = now\<rparr>"

text \<open>A library that holds movie 99.\<close>

definition old_library :: world where
  "old_library = \<lparr>history = [], cache = [],
     inventory = [\<lparr>p_tmdb_id = 99, p_media_type = ''movie'', present_at = 1690000000\<rparr>],
     calls = [], step = 0\<rparr>"

text \<open>A catalog where, for the movie, details answer and keywords fail, and for the show,
  details fail and keywords answer.\<close>

definition partial_env :: env where
  "partial_env = frozen_env
     \<lparr>GetMovieDetails := (\<lambda>n i. Inr \<lparr>md_IMDbID = ''tt1645089'', md_Runtime = 109,
                                    md_Genres = [''Documentary''],
                                    md_ProductionCountries = [''US'']\<rparr>),
      GetTVKeywords := (\<lambda>n i. Inr [''nuclear'', ''disaster''])\<rparr>"

text \<open>The query "inside job", which the catalog answers with the title "Inside Job".\<close>

definition inside_job_result :: TitleResult where
  "inside_job_result =
     \<lparr>r_TMDbID = 44639, r_IMDbID = [], r_Title = ''Inside Job'', r_Year = 2010,
      r_MediaType = ''movie'', r_Overview = [], r_Genres = [], r_Keywords = [],
      r_VoteCount = 0, r_VoteAvg = 0, r_RuntimeMin = 0, r_Country = []\<rparr>"

definition inside_job_searches :: "call list" where
  "inside_job_searches =
     [SearchMovies ''inside job'' 2010, MovieDetails 44639, MovieKeywords 44639]"

definition inside_job_cached :: world where
  "inside_job_cached =
     \<lparr>history = [],
      cache = [(\<lparr>c_Title = ''Inside Job'', c_Year = 2010, c_MediaType = ''movie'',
                 c_TMDbID = 44639, c_IMDbID = [], c_Country = [], c_RuntimeMin = 0\<rparr>,
                1700000000)],
      inventory = [], calls = inside_job_searches, step = 5\<rparr>"







text \<open>
  Environments in which one kind of read fails: the history load at effect 12 (the load
  of a second run started in \<open>chernobyl_world\<close>), the inventory lookups from effect 8
  on, and the cache statements of the first ten effects. A library that holds the show
  87108, and a cache that holds the title under the id 1.
\<close>

definition reload_fails_env :: env where
  "reload_fails_env = catalog_env (\<lambda>n. 1700000000) (\<lambda>op n. op = HistorySelect \<and> n = 12)"

definition lookup_fails_env :: env where
  "lookup_fails_env = catalog_env (\<lambda>n. 1700000000) (\<lambda>op n. op = InventoryCount \<and> 8 \<le> n)"

definition cache_fails_env :: env where
  "cache_fails_env =
     catalog_env (\<lambda>n. 1700000000) (\<lambda>op n. (op = CacheSelect \<or> op = CacheInsert) \<and> n < 10)"

definition chernobyl_once :: "Recommendation list" where
  "chernobyl_once = [candidate ''Chernobyl'' 2019 ''tv'']"

definition library_world :: world where
  "library_world = \<lparr>history = [], cache = [],
     inventory = [\<lparr>p_tmdb_id = 87108, p_media_type = ''tv'', present_at = 1690000000\<rparr>],
     calls = [], step = 0\<rparr>"

definition stale_cache_world :: world where
  "stale_cache_world =
     \<lparr>history = [],
      cache = [(\<lparr>c_Title = ''Chernobyl'', c_Year = 2019, c_MediaType = ''tv'', c_TMDbID = 1,
                 c_IMDbID = [], c_Country = [], c_RuntimeMin = 0\<rparr>, 1690000000)],
      inventory = [], calls = [], step = 0\<rparr>"

text \<open>
  A process one hour east of UTC, and a history whose row was last seen sixty days less
  half an hour before the instant of the frozen clock.
\<close>

definition east_env :: env where
  "east_env = frozen_env\<lparr>utc_offset := (\<lambda>n. 3600)\<rparr>"

definition recent_world :: world where
  "recent_world =
     \<lparr>history = [\<lparr>h_label = ''Docudrama'', h_tmdb_id = 87108, h_media_type = ''tv'',
                  first_seen_at = 1694817800, last_seen_at = 1694817800\<rparr>],
      cache = [], inventory = [], calls = [], step = 0\<rparr>"

section \<open>Notions used in the proofs\<close>

text \<open>
  What a search of a steady catalog answers, the id \<open>SearchAndResolve\<close> then
  returns on a given cache when the cache read does not fail, and the candidates whose id
  is already excluded.
\<close>

definition fresh :: "env \<Rightarrow> string \<Rightarrow> int \<Rightarrow> string \<Rightarrow> err + TitleResult" where
  "fresh e title year mediaType =
     (if mediaType = ''movie'' then fst (searchMovie e title year empty_world)
      else if mediaType = ''tv'' then fst (searchTV e title year empty_world)
      else Inl (UnknownMediaType mediaType))"






text \<open>The world without its history table.\<close>

definition forget_history :: "world \<Rightarrow> world" where
  "forget_history w = w\<lparr>history := []\<rparr>"

definition forget3 :: "world \<times> int set \<times> ResolvedItem list \<Rightarrow> world \<times> int set \<times> ResolvedItem list" where
  "forget3 st = (case st of (w, seen, out) \<Rightarrow> (forget_history w, seen, out))"

text \<open>The environment in which the history writes fail as \<open>f\<close> says.\<close>

definition with_history_write_faults :: "(nat \<Rightarrow> bool) \<Rightarrow> env \<Rightarrow> env" where
  "with_history_write_faults f e = e\<lparr>db_fails := (db_fails e)(HistoryUpsert := f)\<rparr>"

text \<open>Every history write fails.\<close>

definition always_fails :: "nat \<Rightarrow> bool" where
  "always_fails n = True"

section \<open>Frame and invariant lemmas\<close>

lemma ascii_lower_examples:
  "ascii_lower ''tv'' = ''tv''" "ascii_lower ''movie'' = ''movie''"
  "ascii_lower ''Movie'' = ''movie''" "ascii_lower ''Series'' = ''series''"
  by code_simp+

lemmas run_defs = Resolve_def resolve_one_def SearchAndResolve_def
   getCached_def GetTitleResolution_def searchTV_def searchMovie_def cacheResult_def
   CacheTitleResolution_def IsInPlexInventory_def RecordRecommendation_def
   GetRecommendationsSince_def tick_def log_call_def normalize_medium_def ascii_lower_examples
   local_since_def
   media_ok_def Let_def keyword_list_def make_item_def resolution_of_def
   cached_result_def sixty_days_def in_window_def cache_match_def pkey_def hkey_def
   first_or_empty_def first_or_zero_def bump_last_seen_def

lemmas example_defs = catalog_env_def no_faults_def frozen_env_def ten_day_env_def
   empty_world_def candidate_def plain_item_def hit_def

lemma tick_simps [simp]:
  "history (tick w) = history w" "cache (tick w) = cache w"
  "inventory (tick w) = inventory w" "calls (tick w) = calls w"
  "step (tick w) = Suc (step w)"
  by (simp_all add: tick_def)

lemma log_call_simps [simp]:
  "history (log_call c w) = history w" "cache (log_call c w) = cache w"
  "inventory (log_call c w) = inventory w" "calls (log_call c w) = calls w @ [c]"
  "step (log_call c w) = Suc (step w)"
  by (simp_all add: log_call_def)

lemma snd_GetTitleResolution [simp]: "snd (GetTitleResolution e t y m w) = tick w"
  by (simp add: GetTitleResolution_def)

lemma snd_getCached [simp]: "snd (getCached e t y m w) = tick w"
proof -
  obtain r w' where g: "GetTitleResolution e t y m w = (r, w')"
    by (cases "GetTitleResolution e t y m w")
  then have "w' = snd (GetTitleResolution e t y m w)" by simp
  then have "w' = tick w" by simp
  with g show ?thesis
    by (simp add: getCached_def split: sum.splits option.splits)
qed

lemma snd_IsInPlexInventory [simp]: "snd (IsInPlexInventory e i m w) = tick w"
  by (simp add: IsInPlexInventory_def)

lemma snd_GetRecommendationsSince [simp]: "snd (GetRecommendationsSince e l s w) = tick w"
  by (simp add: GetRecommendationsSince_def)

lemma searchMovie_frame [simp]:
  "history (snd (searchMovie e t y w)) = history w"
  "cache (snd (searchMovie e t y w)) = cache w"
  "inventory (snd (searchMovie e t y w)) = inventory w"
  by (simp_all add: searchMovie_def Let_def split: sum.splits list.splits)

lemma searchTV_frame [simp]:
  "history (snd (searchTV e t y w)) = history w"
  "cache (snd (searchTV e t y w)) = cache w"
  "inventory (snd (searchTV e t y w)) = inventory w"
  by (simp_all add: searchTV_def Let_def split: sum.splits list.splits)

lemma CacheTitleResolution_frame [simp]:
  "history (snd (CacheTitleResolution e tr w)) = history w"
  "inventory (snd (CacheTitleResolution e tr w)) = inventory w"
  by (simp_all add: CacheTitleResolution_def Let_def tick_def)

lemma cacheResult_frame [simp]:
  "history (cacheResult e r w) = history w"
  "inventory (cacheResult e r w) = inventory w"
  by (simp_all add: cacheResult_def)

lemma SearchAndResolve_frame [simp]:
  "history (snd (SearchAndResolve e t y m w)) = history w"
  "inventory (snd (SearchAndResolve e t y m w)) = inventory w"
proof -
  obtain c w1 where g: "getCached e t y m w = (c, w1)" by (cases "getCached e t y m w")
  then have "w1 = snd (getCached e t y m w)" by simp
  then have w1: "w1 = tick w" by simp
  obtain a w2 where sm: "searchMovie e t y w1 = (a, w2)" by (cases "searchMovie e t y w1")
  obtain b w3 where st: "searchTV e t y w1 = (b, w3)" by (cases "searchTV e t y w1")
  from sm have "w2 = snd (searchMovie e t y w1)" by simp
  then have "history w2 = history w" "inventory w2 = inventory w"
    using w1 by simp_all
  moreover from st have "w3 = snd (searchTV e t y w1)" by simp
  then have "history w3 = history w" "inventory w3 = inventory w"
    using w1 by simp_all
  ultimately show "history (snd (SearchAndResolve e t y m w)) = history w"
    "inventory (snd (SearchAndResolve e t y m w)) = inventory w"
    using g sm st w1
    by (simp_all add: SearchAndResolve_def split: option.splits sum.splits)
qed

lemma RecordRecommendation_frame [simp]:
  "cache (snd (RecordRecommendation e l i m w)) = cache w"
  "inventory (snd (RecordRecommendation e l i m w)) = inventory w"
  "step (snd (RecordRecommendation e l i m w)) = Suc (step w)"
  "calls (snd (RecordRecommendation e l i m w)) = calls w"
  by (simp_all add: RecordRecommendation_def Let_def tick_def)

text \<open>What one pass of the loop can do.\<close>

lemma resolve_one_cases:
  assumes "resolve_one e cat rec (w, seen, out) = (w', seen', out')"
  obtains (skip) res w1 where
      "SearchAndResolve e (rec_Title rec) (rec_Year rec) (normalize_medium e (rec_Medium rec)) w
        = (res, w1)"
      "seen' = seen" "out' = out" "inventory w' = inventory w" "history w' = history w"
      "cache w' = cache w1"
      "\<And>r. res = Inr r \<Longrightarrow> r_TMDbID r \<in> seen \<or>
         fst (fst (IsInPlexInventory e (r_TMDbID r) (normalize_medium e (rec_Medium rec)) w1))"
  | (emit) result w1 where
      "SearchAndResolve e (rec_Title rec) (rec_Year rec) (normalize_medium e (rec_Medium rec)) w
        = (Inr result, w1)"
      "r_TMDbID result \<notin> seen"
      "\<not> fst (fst (IsInPlexInventory e (r_TMDbID result) (normalize_medium e (rec_Medium rec)) w1))"
      "seen' = insert (r_TMDbID result) seen"
      "out' = out @ [make_item result (normalize_medium e (rec_Medium rec)) rec]"
      "w' = snd (RecordRecommendation e cat (r_TMDbID result)
                  (normalize_medium e (rec_Medium rec)) (tick w1))"
      "inventory w' = inventory w"
      "cache w' = cache w1"
proof -
  let ?m = "normalize_medium e (rec_Medium rec)"
  obtain r w1 where sr: "SearchAndResolve e (rec_Title rec) (rec_Year rec) ?m w = (r, w1)"
    by (cases "SearchAndResolve e (rec_Title rec) (rec_Year rec) ?m w")
  from sr have "w1 = snd (SearchAndResolve e (rec_Title rec) (rec_Year rec) ?m w)" by simp
  then have inv1: "inventory w1 = inventory w" and his1: "history w1 = history w" by simp_all
  show thesis
  proof (cases r)
    case (Inl er)
    with sr have "resolve_one e cat rec (w, seen, out) = (w1, seen, out)"
      by (simp add: resolve_one_def Let_def)
    with assms have "w' = w1" "seen' = seen" "out' = out" by simp_all
    with inv1 his1 sr Inl show thesis by (intro skip[of r w1]) simp_all
  next
    case (Inr result)
    show thesis
    proof (cases "r_TMDbID result \<in> seen")
      case True
      with sr Inr have "resolve_one e cat rec (w, seen, out) = (w1, seen, out)"
        by (simp add: resolve_one_def Let_def)
      with assms have "w' = w1" "seen' = seen" "out' = out" by simp_all
      with inv1 his1 sr Inr True show thesis by (intro skip[of r w1]) simp_all
    next
      case False
      have "\<exists>inPlex er. IsInPlexInventory e (r_TMDbID result) ?m w1 = ((inPlex, er), tick w1)"
        by (auto simp add: IsInPlexInventory_def)
      then obtain inPlex er where ip:
        "IsInPlexInventory e (r_TMDbID result) ?m w1 = ((inPlex, er), tick w1)"
        by blast
      show thesis
      proof (cases inPlex)
        case True
        with sr Inr False ip have "resolve_one e cat rec (w, seen, out) = (tick w1, seen, out)"
          by (simp add: resolve_one_def Let_def)
        with assms have "w' = tick w1" "seen' = seen" "out' = out" by simp_all
        with inv1 his1 sr Inr True ip show thesis by (intro skip[of r w1]) simp_all
      next
        case no: False
        with sr Inr False ip have "resolve_one e cat rec (w, seen, out) =
            (snd (RecordRecommendation e cat (r_TMDbID result) ?m (tick w1)),
             insert (r_TMDbID result) seen, out @ [make_item result ?m rec])"
          by (simp add: resolve_one_def Let_def)
        with assms have *: "w' = snd (RecordRecommendation e cat (r_TMDbID result) ?m (tick w1))"
          "seen' = insert (r_TMDbID result) seen" "out' = out @ [make_item result ?m rec]"
          by simp_all
        from *(1) inv1 have "inventory w' = inventory w" "cache w' = cache w1" by simp_all
        with * sr Inr False ip no show thesis
          by (intro emit[of result w1]) simp_all
      qed
    qed
  qed
qed

lemma make_item_simps [simp]:
  "i_TMDbID (make_item result m rec) = r_TMDbID result"
  "i_Medium (make_item result m rec) = m"
  by (simp_all add: make_item_def)

lemma resolve_all_invariant:
  assumes "P st" and "\<And>rec st. P st \<Longrightarrow> P (resolve_one e cat rec st)"
  shows "P (resolve_all e cat recs st)"
  using assms(1)
proof (induction recs arbitrary: st)
  case Nil
  then show ?case by simp
next
  case (Cons rec recs)
  from Cons.prems have "P (resolve_one e cat rec st)" by (rule assms(2))
  then show ?case by (simp add: Cons.IH)
qed

lemma IsInPlexInventory_ok:
  "\<not> db_fails e InventoryCount (step w) \<Longrightarrow>
   fst (fst (IsInPlexInventory e i m w)) = ((i, m) \<in> set (map pkey (inventory w)))"
proof -
  have "(filter (\<lambda>r. pkey r = (i, m)) (inventory w) \<noteq> []) = ((i, m) \<in> set (map pkey (inventory w)))"
    by (force simp: filter_empty_conv)
  then show "\<not> db_fails e InventoryCount (step w) \<Longrightarrow> ?thesis"
    by (simp add: IsInPlexInventory_def)
qed

lemma loop_inv_step:
  assumes "loop_inv e S0 inv0 st"
  shows "loop_inv e S0 inv0 (resolve_one e cat rec st)"
proof -
  obtain w seen out where st: "st = (w, seen, out)" by (cases st)
  obtain w' seen' out' where r: "resolve_one e cat rec (w, seen, out) = (w', seen', out')"
    by (cases "resolve_one e cat rec (w, seen, out)")
  from assms st have inv: "inventory w = inv0" "S0 \<subseteq> seen"
    "set (map i_TMDbID out) \<subseteq> seen - S0" "distinct (map i_TMDbID out)"
    "(\<forall>n. \<not> db_fails e InventoryCount n) \<longrightarrow>
           (\<forall>it \<in> set out. (i_TMDbID it, i_Medium it) \<notin> set (map pkey inv0))"
    by (simp_all add: loop_inv_def)
  from r show ?thesis
  proof (cases rule: resolve_one_cases)
    case (skip res w1)
    with inv st r show ?thesis by (simp add: loop_inv_def)
  next
    case (emit result w1)
    let ?m = "normalize_medium e (rec_Medium rec)"
    from emit(1) have "w1 = snd (SearchAndResolve e (rec_Title rec) (rec_Year rec) ?m w)" by simp
    then have i1: "inventory w1 = inv0" using inv(1) by simp
    have new: "r_TMDbID result \<notin> set (map i_TMDbID out)"
      using emit(2) inv(3) by auto
    have notS0: "r_TMDbID result \<notin> S0" using emit(2) inv(2) by auto
    have plex: "(\<forall>n. \<not> db_fails e InventoryCount n) \<longrightarrow>
        (r_TMDbID result, ?m) \<notin> set (map pkey inv0)"
    proof
      assume "\<forall>n. \<not> db_fails e InventoryCount n"
      then have "\<not> db_fails e InventoryCount (step w1)" by blast
      from IsInPlexInventory_ok[OF this, of "r_TMDbID result" ?m] emit(3) i1
      show "(r_TMDbID result, ?m) \<notin> set (map pkey inv0)" by simp
    qed
    have "inventory w' = inv0" using emit(7) inv(1) by simp
    moreover have "S0 \<subseteq> seen'" using emit(4) inv(2) by auto
    moreover have "set (map i_TMDbID out') \<subseteq> seen' - S0"
      using emit(4,5) inv(3) notS0 by auto
    moreover have "distinct (map i_TMDbID out')"
      using emit(5) inv(4) new by simp
    moreover have "(\<forall>n. \<not> db_fails e InventoryCount n) \<longrightarrow>
           (\<forall>it \<in> set out'. (i_TMDbID it, i_Medium it) \<notin> set (map pkey inv0))"
      using emit(5) inv(5) plex by auto
    ultimately show ?thesis using st r by (simp add: loop_inv_def)
  qed
qed

lemma loop_inv_all:
  "loop_inv e S0 inv0 st \<Longrightarrow> loop_inv e S0 inv0 (resolve_all e cat recs st)"
  by (rule resolve_all_invariant) (simp_all add: loop_inv_step)

lemma Resolve_eq:
  "Resolve e recs cat w =
     (if survivors e recs cat w = [] then (Inl NoRecommendationsResolved, fst (loop_end e recs cat w))
      else (Inr \<lparr>o_Category = cat, o_ResolvedAt = clock e (step (fst (loop_end e recs cat w))),
                 o_Items = survivors e recs cat w\<rparr>, tick (fst (loop_end e recs cat w))))"
proof -
  obtain got w1 where g: "GetRecommendationsSince e cat (local_since e w) (tick w) = (got, w1)"
    by (cases "GetRecommendationsSince e cat (local_since e w) (tick w)")
  then have "w1 = snd (GetRecommendationsSince e cat (local_since e w) (tick w))" by simp
  then have w1: "w1 = tick (tick w)" by simp
  obtain w2 seen out where l: "loop_end e recs cat w = (w2, seen, out)"
    by (cases "loop_end e recs cat w")
  with g w1 show ?thesis
    by (simp add: Resolve_def survivors_def loop_end_def loaded_def Let_def)
qed

lemma loop_end_inv:
  "loop_inv e (loaded e cat w) (inventory w) (loop_end e recs cat w)"
  unfolding loop_end_def by (rule loop_inv_all) (simp add: loop_inv_def)

lemma Resolve_items:
  assumes "Resolve e recs cat w = (Inr out, w')"
  shows "o_Items out = survivors e recs cat w"
  using assms by (simp add: Resolve_eq split: if_splits) auto

lemma survivors_facts:
  "distinct (map i_TMDbID (survivors e recs cat w))"
  "set (map i_TMDbID (survivors e recs cat w)) \<inter> loaded e cat w = {}"
  "(\<forall>n. \<not> db_fails e InventoryCount n) \<Longrightarrow> it \<in> set (survivors e recs cat w) \<Longrightarrow>
     (i_TMDbID it, i_Medium it) \<notin> set (map pkey (inventory w))"
proof -
  obtain w2 seen out where l: "loop_end e recs cat w = (w2, seen, out)"
    by (cases "loop_end e recs cat w")
  from loop_end_inv[of e cat w recs] l
  have inv: "set (map i_TMDbID out) \<subseteq> seen - loaded e cat w" "distinct (map i_TMDbID out)"
    "(\<forall>n. \<not> db_fails e InventoryCount n) \<longrightarrow>
           (\<forall>it \<in> set out. (i_TMDbID it, i_Medium it) \<notin> set (map pkey (inventory w)))"
    by (simp_all add: loop_inv_def)
  have s: "survivors e recs cat w = out" using l by (simp add: survivors_def)
  show "distinct (map i_TMDbID (survivors e recs cat w))" using inv(2) s by simp
  show "set (map i_TMDbID (survivors e recs cat w)) \<inter> loaded e cat w = {}"
    using inv(1) s by auto
  show "(\<forall>n. \<not> db_fails e InventoryCount n) \<Longrightarrow> it \<in> set (survivors e recs cat w) \<Longrightarrow>
     (i_TMDbID it, i_Medium it) \<notin> set (map pkey (inventory w))"
    using inv(3) s by blast
qed

lemma loaded_ok:
  "\<not> db_fails e HistorySelect (Suc (step w)) \<Longrightarrow>
   loaded e cat w = set (map h_tmdb_id (filter (in_window cat (local_since e w)) (history w)))"
  by (simp add: loaded_def GetRecommendationsSince_def)

lemma distinct_pairs: "distinct (map f xs) \<Longrightarrow> distinct (map (\<lambda>x. (f x, g x)) xs)"
  by (induction xs) auto

lemma chernobyl_run:
  "Resolve frozen_env chernobyl_twice ''Docudrama'' empty_world =
     (Inr \<lparr>o_Category = ''Docudrama'', o_ResolvedAt = 1700000000,
           o_Items = [plain_item ''Chernobyl'' 2019 ''tv'' 87108]\<rparr>, chernobyl_world)"
  by (simp add: run_defs example_defs chernobyl_twice_def chernobyl_world_def)

section \<open>The history table\<close>

lemma hkey_bump [simp]: "hkey (bump_last_seen k t r) = hkey r"
  by (simp add: bump_last_seen_def hkey_def)

lemma hkey_last_seen [simp]: "hkey (r\<lparr>last_seen_at := t\<rparr>) = hkey r"
  by (simp add: hkey_def)

lemma hkey_comp_bump [simp]: "hkey \<circ> bump_last_seen k t = hkey"
  by (rule ext) simp

lemma hkey_row [simp]:
  "hkey \<lparr>h_label = l, h_tmdb_id = i, h_media_type = m, first_seen_at = a, last_seen_at = b\<rparr> = (l, i, m)"
  by (simp add: hkey_def)

lemma map_hkey_bump [simp]: "map hkey (map (bump_last_seen k t) rs) = map hkey rs"
  by simp

lemma filter_singletonD: "filter P xs = [r] \<Longrightarrow> r \<in> set xs \<and> P r"
proof -
  assume "filter P xs = [r]"
  then have "r \<in> set (filter P xs)" by simp
  then show ?thesis by simp
qed

lemma RecordRecommendation_distinct:
  "distinct (map hkey (history w)) \<Longrightarrow>
   distinct (map hkey (history (snd (RecordRecommendation e l i m w))))"
  by (simp add: RecordRecommendation_def Let_def tick_def)

lemma RecordRecommendations_distinct:
  "distinct (map hkey (history w)) \<Longrightarrow>
   distinct (map hkey (history (RecordRecommendations e ks w)))"
proof (induction ks arbitrary: w)
  case Nil
  then show ?case by simp
next
  case (Cons k ks)
  obtain l i m where k: "k = (l, i, m)" by (cases k)
  from Cons.prems have "distinct (map hkey (history (snd (RecordRecommendation e l i m w))))"
    by (rule RecordRecommendation_distinct)
  then show ?case unfolding k by (simp add: Cons.IH)
qed

lemma filter_absent: "k \<notin> set (map hkey rs) \<Longrightarrow> filter (\<lambda>r. hkey r = k) rs = []"
  by (induction rs) auto

lemma RecordRecommendation_new:
  assumes "RecordRecommendation e l i m w = (None, w')"
    and "(l, i, m) \<notin> set (map hkey (history w))"
  shows "rows_of (l, i, m) w' =
    [\<lparr>h_label = l, h_tmdb_id = i, h_media_type = m,
      first_seen_at = clock e (step w), last_seen_at = clock e (step w)\<rparr>]"
proof -
  from assms(2) have "filter (\<lambda>r. hkey r = (l, i, m)) (history w) = []"
    by (rule filter_absent)
  with assms show ?thesis
    by (auto simp: RecordRecommendation_def Let_def tick_def rows_of_def split: if_splits)
qed

lemma filter_bump_same:
  "filter (\<lambda>r. hkey r = k) (map (bump_last_seen k t) rs)
   = map (\<lambda>r. r\<lparr>last_seen_at := t\<rparr>) (filter (\<lambda>r. hkey r = k) rs)"
  by (induction rs) (auto simp: bump_last_seen_def)

lemma filter_bump_other:
  "k' \<noteq> k \<Longrightarrow> filter (\<lambda>r. hkey r = k) (map (bump_last_seen k' t) rs)
   = filter (\<lambda>r. hkey r = k) rs"
  by (induction rs) (auto simp: bump_last_seen_def)

lemma RecordRecommendation_again:
  assumes "RecordRecommendation e l i m w = (None, w')"
    and "rows_of (l, i, m) w = [r]"
  shows "rows_of (l, i, m) w' = [r\<lparr>last_seen_at := clock e (step w)\<rparr>]"
proof -
  from assms(2) have "r \<in> set (history w) \<and> hkey r = (l, i, m)"
    unfolding rows_of_def by (rule filter_singletonD)
  then have "(l, i, m) \<in> set (map hkey (history w))" by force
  with assms show ?thesis
    by (auto simp: RecordRecommendation_def Let_def tick_def rows_of_def filter_bump_same
        split: if_splits)
qed

lemma RecordRecommendation_keeps_first:
  assumes "rows_of k w = [r]"
  shows "\<exists>t. rows_of k (snd (RecordRecommendation e l i m w)) = [r\<lparr>last_seen_at := t\<rparr>]"
proof -
  from assms have r: "r \<in> set (history w) \<and> hkey r = k"
    unfolding rows_of_def by (rule filter_singletonD)
  have same: "rows_of k w = [r\<lparr>last_seen_at := last_seen_at r\<rparr>]"
    using assms by simp
  consider (fail) "history (snd (RecordRecommendation e l i m w)) = history w"
    | (upd) "(l, i, m) \<in> set (map hkey (history w))"
        "history (snd (RecordRecommendation e l i m w))
          = map (bump_last_seen (l, i, m) (clock e (step w))) (history w)"
    | (ins) "(l, i, m) \<notin> set (map hkey (history w))"
        "history (snd (RecordRecommendation e l i m w))
          = history w @ [\<lparr>h_label = l, h_tmdb_id = i, h_media_type = m,
                 first_seen_at = clock e (step w), last_seen_at = clock e (step w)\<rparr>]"
    by (cases "db_fails e HistoryUpsert (step w)"; cases "media_ok m";
        cases "(l, i, m) \<in> set (map hkey (history w))")
      (simp_all add: RecordRecommendation_def Let_def tick_def)
  then show ?thesis
  proof cases
    case fail
    with same show ?thesis unfolding rows_of_def by (intro exI[of _ "last_seen_at r"]) simp
  next
    case upd
    show ?thesis
    proof (cases "(l, i, m) = k")
      case True
      with upd(2) assms show ?thesis
        unfolding rows_of_def by (simp add: filter_bump_same) blast
    next
      case False
      with upd(2) same show ?thesis
        unfolding rows_of_def by (intro exI[of _ "last_seen_at r"]) (simp add: filter_bump_other)
    qed
  next
    case ins
    from ins(1) r have "(l, i, m) \<noteq> k" by force
    with ins(2) same show ?thesis
      unfolding rows_of_def by (intro exI[of _ "last_seen_at r"]) simp
  qed
qed

lemma RecordRecommendations_keeps_first:
  "rows_of k w = [r] \<Longrightarrow>
   \<exists>t. rows_of k (RecordRecommendations e ks w) = [r\<lparr>last_seen_at := t\<rparr>]"
proof (induction ks arbitrary: w r)
  case Nil
  then show ?case by (intro exI[of _ "last_seen_at r"]) simp
next
  case (Cons a ks)
  obtain l i m where a: "a = (l, i, m)" by (cases a)
  from RecordRecommendation_keeps_first[OF Cons.prems, of e l i m]
  obtain t where "rows_of k (snd (RecordRecommendation e l i m w)) = [r\<lparr>last_seen_at := t\<rparr>]"
    by blast
  from Cons.IH[OF this] show ?case unfolding a by auto
qed


text \<open>
  C5. Starting from a history table with at most one row per key (the empty table that
  \<open>initSchema\<close> creates is one), every state \<open>w\<close> reached by a sequence of
  \<open>RecordRecommendation\<close> calls has at most one row per (label, tmdb_id, media_type).
  When a key absent in \<open>w\<close> is recorded, then any further calls are made, and then the
  same key is recorded again, the table holds exactly one row for the key: its
  \<open>first_seen_at\<close> is the time of the first recording and its \<open>last_seen_at\<close> the time of
  the second.
\<close>

theorem history_upsert_one_row_per_key:
  assumes fresh: "distinct (map hkey (history w0))"
    and reach: "w = RecordRecommendations e ks w0"
    and new: "(label, tmdbID, mediaType) \<notin> set (map hkey (history w))"
    and first: "RecordRecommendation e label tmdbID mediaType w = (None, w1)"
    and between: "w1' = RecordRecommendations e ks' w1"
    and second: "RecordRecommendation e label tmdbID mediaType w1' = (None, w2)"
  shows "distinct (map hkey (history w)) \<and> distinct (map hkey (history w2)) \<and>
    filter (\<lambda>r. hkey r = (label, tmdbID, mediaType)) (history w2) =
      [\<lparr>h_label = label, h_tmdb_id = tmdbID, h_media_type = mediaType,
        first_seen_at = clock e (step w), last_seen_at = clock e (step w1')\<rparr>]"
proof -
  let ?k = "(label, tmdbID, mediaType)"
  let ?r = "\<lparr>h_label = label, h_tmdb_id = tmdbID, h_media_type = mediaType,
      first_seen_at = clock e (step w), last_seen_at = clock e (step w)\<rparr>"
  have dw: "distinct (map hkey (history w))"
    unfolding reach using fresh by (rule RecordRecommendations_distinct)
  have w1: "w1 = snd (RecordRecommendation e label tmdbID mediaType w)"
    and w2: "w2 = snd (RecordRecommendation e label tmdbID mediaType w1')"
    using first second by simp_all
  have "distinct (map hkey (history w1))"
    unfolding w1 using dw by (rule RecordRecommendation_distinct)
  then have "distinct (map hkey (history w1'))"
    unfolding between by (rule RecordRecommendations_distinct)
  then have dw2: "distinct (map hkey (history w2))"
    unfolding w2 by (rule RecordRecommendation_distinct)
  have "rows_of ?k w1 = [?r]"
    using first new by (rule RecordRecommendation_new)
  from RecordRecommendations_keeps_first[OF this, of e ks']
  obtain t where "rows_of ?k w1' = [?r\<lparr>last_seen_at := t\<rparr>]"
    unfolding between by blast
  with second have "rows_of ?k w2 = [?r\<lparr>last_seen_at := t, last_seen_at := clock e (step w1')\<rparr>]"
    by (rule RecordRecommendation_again)
  then show ?thesis using dw dw2 by (simp add: rows_of_def)
qed

theorem history_upsert_one_row_per_key_witness:
  "distinct (map hkey (history empty_world))
   \<and> empty_world = RecordRecommendations ten_day_env [] empty_world
   \<and> (''True Crime'', 42, ''movie'') \<notin> set (map hkey (history empty_world))
   \<and> RecordRecommendation ten_day_env ''True Crime'' 42 ''movie'' empty_world
       = (None, true_crime_once)
   \<and> true_crime_once = RecordRecommendations ten_day_env [] true_crime_once
   \<and> RecordRecommendation ten_day_env ''True Crime'' 42 ''movie'' true_crime_once
       = (None, true_crime_twice)
   \<and> distinct (map hkey (history true_crime_twice))
   \<and> filter (\<lambda>r. hkey r = (''True Crime'', 42, ''movie'')) (history true_crime_twice) =
       [\<lparr>h_label = ''True Crime'', h_tmdb_id = 42, h_media_type = ''movie'',
         first_seen_at = 1700000000, last_seen_at = 1700000000 + 864000\<rparr>]"
proof -
  have a: "distinct (map hkey (history empty_world))"
    and b: "empty_world = RecordRecommendations ten_day_env [] empty_world"
    and c: "(''True Crime'', 42, ''movie'') \<notin> set (map hkey (history empty_world))"
    by (simp_all add: empty_world_def)
  have d: "RecordRecommendation ten_day_env ''True Crime'' 42 ''movie'' empty_world
       = (None, true_crime_once)"
    by (simp add: run_defs example_defs true_crime_once_def)
  have f: "true_crime_once = RecordRecommendations ten_day_env [] true_crime_once"
    by simp
  have g: "RecordRecommendation ten_day_env ''True Crime'' 42 ''movie'' true_crime_once
       = (None, true_crime_twice)"
    by (simp add: run_defs example_defs true_crime_once_def true_crime_twice_def)
  from history_upsert_one_row_per_key[OF a b c d f g] a b c d f g show ?thesis
    by (simp add: example_defs true_crime_once_def)
qed

section \<open>The pipeline\<close>

text \<open>
  C2. In the output of a run no two items share the pair (canonical id, medium);
  the run may start from any world and any history write of the run may fail.
\<close>

theorem resolve_output_no_duplicates:
  assumes "Resolve e recs cat w = (Inr out, w')"
  shows "distinct (map (\<lambda>it. (i_TMDbID it, i_Medium it)) (o_Items out))"
proof -
  have "distinct (map i_TMDbID (o_Items out))"
    using Resolve_items[OF assms] survivors_facts(1)[of e recs cat w] by simp
  then show ?thesis by (rule distinct_pairs)
qed

theorem resolve_output_no_duplicates_witness:
  "Resolve frozen_env chernobyl_twice ''Docudrama'' empty_world =
     (Inr \<lparr>o_Category = ''Docudrama'', o_ResolvedAt = 1700000000,
           o_Items = [plain_item ''Chernobyl'' 2019 ''tv'' 87108]\<rparr>, chernobyl_world)
   \<and> distinct (map (\<lambda>it. (i_TMDbID it, i_Medium it)) [plain_item ''Chernobyl'' 2019 ''tv'' 87108])"
  using resolve_output_no_duplicates[OF chernobyl_run] chernobyl_run by simp

text \<open>
  C6. \<open>Resolve\<close> fails exactly when the list of survivors is empty, and then with the
  error "no recommendations could be resolved"; otherwise it succeeds and returns the
  survivors, at least one.
\<close>

theorem resolve_fails_iff_nothing_survived:
  "(case fst (Resolve e recs cat w) of
      Inl er \<Rightarrow> er = NoRecommendationsResolved \<and> survivors e recs cat w = []
    | Inr out \<Rightarrow> o_Items out = survivors e recs cat w \<and> survivors e recs cat w \<noteq> [])"
  by (simp add: Resolve_eq)

lemma oz_run:
  "fst (Resolve frozen_env oz_and_chernobyl ''Prison Drama'' movie99_world) = Inr oz_output"
  by (simp add: run_defs example_defs oz_and_chernobyl_def movie99_world_def oz_output_def)



text \<open>
  C1, as stated, fails: the inventory is looked up by the pair (tmdb id, media type), so
  a library that holds movie 99 does not exclude the show with id 99. The run below
  returns that show although the id 99 occurs in the inventory snapshot.
\<close>

theorem inventory_other_medium_counterexample:
  "fst (Resolve frozen_env oz_and_chernobyl ''Prison Drama'' movie99_world) = Inr oz_output
   \<and> plain_item ''Oz'' 1997 ''tv'' 99 \<in> set (o_Items oz_output)
   \<and> i_TMDbID (plain_item ''Oz'' 1997 ''tv'' 99) \<in> set (map p_tmdb_id (inventory movie99_world))"
  using oz_run by (simp add: oz_output_def movie99_world_def plain_item_def)

text \<open>
  C1, amended. For every item of the output of a run:
  when the history was loaded at the start of the run and the process runs in UTC, the id
  of the item is outside the set of ids whose history row for the category has
  \<open>last_seen_at\<close> in the sixty days before the start of the run;
  when the inventory lookups of the run succeeded, the pair (id, medium) of the item is
  not in the inventory snapshot.
\<close>

theorem resolved_items_not_excluded:
  assumes run: "Resolve e recs cat w = (Inr out, w')"
    and item: "it \<in> set (o_Items out)"
  shows "(\<not> db_fails e HistorySelect (Suc (step w)) \<and> utc_offset e (step w) = 0 \<longrightarrow>
            i_TMDbID it \<notin> set (map h_tmdb_id
              (filter (in_window cat (clock e (step w) - sixty_days)) (history w))))
       \<and> ((\<forall>n. \<not> db_fails e InventoryCount n) \<longrightarrow>
            (i_TMDbID it, i_Medium it) \<notin> set (map pkey (inventory w)))"
proof (intro conjI impI)
  from run item have s: "it \<in> set (survivors e recs cat w)"
    by (simp add: Resolve_items)
  {
    assume h: "\<not> db_fails e HistorySelect (Suc (step w)) \<and> utc_offset e (step w) = 0"
    from s have "i_TMDbID it \<in> set (map i_TMDbID (survivors e recs cat w))" by simp
    with survivors_facts(2)[of e recs cat w] have "i_TMDbID it \<notin> loaded e cat w" by blast
    moreover from h have "local_since e w = clock e (step w) - sixty_days"
      by (simp add: local_since_def)
    ultimately show "i_TMDbID it \<notin> set (map h_tmdb_id
              (filter (in_window cat (clock e (step w) - sixty_days)) (history w)))"
      using loaded_ok[of e w cat] h by simp
  }
  {
    assume "\<forall>n. \<not> db_fails e InventoryCount n"
    then show "(i_TMDbID it, i_Medium it) \<notin> set (map pkey (inventory w))"
      using s by (rule survivors_facts(3))
  }
qed

theorem resolved_items_not_excluded_witness:
  "fst (Resolve frozen_env oz_and_chernobyl ''Prison Drama'' movie99_world) = Inr oz_output
   \<and> plain_item ''Oz'' 1997 ''tv'' 99 \<in> set (o_Items oz_output)
   \<and> \<not> db_fails frozen_env HistorySelect (Suc (step movie99_world))
   \<and> utc_offset frozen_env (step movie99_world) = 0
   \<and> (\<forall>n. \<not> db_fails frozen_env InventoryCount n)
   \<and> 87108 \<in> set (map h_tmdb_id
            (filter (in_window ''Prison Drama'' (clock frozen_env (step movie99_world) - sixty_days))
               (history movie99_world)))
   \<and> i_TMDbID (plain_item ''Oz'' 1997 ''tv'' 99) \<notin> set (map h_tmdb_id
            (filter (in_window ''Prison Drama'' (clock frozen_env (step movie99_world) - sixty_days))
               (history movie99_world)))
   \<and> (i_TMDbID (plain_item ''Oz'' 1997 ''tv'' 99), i_Medium (plain_item ''Oz'' 1997 ''tv'' 99))
        \<notin> set (map pkey (inventory movie99_world))"
proof -
  obtain w' where run: "Resolve frozen_env oz_and_chernobyl ''Prison Drama'' movie99_world = (Inr oz_output, w')"
    using oz_run by (cases "Resolve frozen_env oz_and_chernobyl ''Prison Drama'' movie99_world") simp
  have item: "plain_item ''Oz'' 1997 ''tv'' 99 \<in> set (o_Items oz_output)"
    by (simp add: oz_output_def)
  have h: "\<not> db_fails frozen_env HistorySelect (Suc (step movie99_world))"
    and z: "utc_offset frozen_env (step movie99_world) = 0"
    and i: "\<forall>n. \<not> db_fails frozen_env InventoryCount n"
    by (simp_all add: example_defs)
  have old: "87108 \<in> set (map h_tmdb_id
            (filter (in_window ''Prison Drama'' (clock frozen_env (step movie99_world) - sixty_days))
               (history movie99_world)))"
    by (simp add: example_defs movie99_world_def in_window_def sixty_days_def)
  from resolved_items_not_excluded[OF run item] oz_run item h z i old show ?thesis by simp
qed

text \<open>
  Outside UTC the bound of the query is the local reading of the instant sixty days
  before the run, compared with the UTC readings the table stores. One hour east of UTC
  a row last seen sixty days less half an hour before the run is below the bound, and
  its id is returned; in UTC the row excludes it.
\<close>

lemma east_of_utc_window:
  "fst (Resolve frozen_env [candidate ''Chernobyl'' 2019 ''tv''] ''Docudrama'' recent_world)
     = Inl NoRecommendationsResolved"
  "fst (Resolve east_env [candidate ''Chernobyl'' 2019 ''tv''] ''Docudrama'' recent_world)
     = Inr \<lparr>o_Category = ''Docudrama'', o_ResolvedAt = 1700000000,
            o_Items = [plain_item ''Chernobyl'' 2019 ''tv'' 87108]\<rparr>"
  by (simp_all add: run_defs example_defs east_env_def recent_world_def)

section \<open>Replacing the inventory\<close>

lemma insert_items_success:
  "insert_items e now items n work = (None, work', n') \<Longrightarrow>
   work' = work @ map (snapshot_row now) items"
proof (induction items arbitrary: n work)
  case Nil
  then show ?case by simp
next
  case (Cons item items)
  obtain i m where item: "item = (i, m)" by (cases item)
  from Cons.prems have "insert_items e now items (Suc n)
      (work @ [\<lparr>p_tmdb_id = i, p_media_type = m, present_at = now\<rparr>]) = (None, work', n')"
    unfolding item by (simp split: if_splits)
  from Cons.IH[OF this] show ?case by (simp add: item snapshot_row_def)
qed

text \<open>
  C7. Whatever \<open>UpdatePlexInventory\<close> returns: on success the inventory table holds
  exactly one row for each item of the new snapshot, in order, and nothing else; on any
  error (begin, delete, prepare, an insert, a constraint, commit) the table is the one
  before the call. The rows deleted and inserted before an error exist only in the
  working copy of the transaction, which the rollback discards.
\<close>

theorem inventory_replace_all_or_nothing:
  assumes "UpdatePlexInventory e items w = (r, w')"
  shows "(case r of
            None \<Rightarrow> inventory w' = map (snapshot_row (clock e (step w + 3))) items
          | Some er \<Rightarrow> inventory w' = inventory w)
         \<and> history w' = history w \<and> cache w' = cache w"
proof -
  obtain r0 work n' where ins:
    "insert_items e (clock e (step w + 3)) items (step w + 4) [] = (r0, work, n')"
    by (cases "insert_items e (clock e (step w + 3)) items (step w + 4) []")
  show ?thesis
  proof (cases r0)
    case None
    with ins have "work = map (snapshot_row (clock e (step w + 3))) items"
      using insert_items_success[of e "clock e (step w + 3)" items "step w + 4" "[]" work n']
      by simp
    with assms ins None show ?thesis
      by (auto simp: UpdatePlexInventory_def Let_def split: if_splits)
  next
    case (Some er)
    with assms ins show ?thesis
      by (auto simp: UpdatePlexInventory_def Let_def split: if_splits)
  qed
qed

theorem inventory_replace_all_or_nothing_witness:
  "UpdatePlexInventory frozen_env [(603, ''movie''), (87108, ''tv'')] old_library
     = (None, old_library\<lparr>inventory := [snapshot_row 1700000000 (603, ''movie''),
                                          snapshot_row 1700000000 (87108, ''tv'')], step := 7\<rparr>)
   \<and> inventory (old_library\<lparr>inventory := [snapshot_row 1700000000 (603, ''movie''),
                                          snapshot_row 1700000000 (87108, ''tv'')], step := 7\<rparr>)
       = map (snapshot_row (clock frozen_env (step old_library + 3))) [(603, ''movie''), (87108, ''tv'')]
   \<and> UpdatePlexInventory frozen_env [(603, ''movie''), (87108, ''tv''), (603, ''movie'')] old_library
     = (Some ConstraintFailed, old_library\<lparr>step := 7\<rparr>)
   \<and> inventory (old_library\<lparr>step := 7\<rparr>) = inventory old_library"
proof -
  have a: "UpdatePlexInventory frozen_env [(603, ''movie''), (87108, ''tv'')] old_library
     = (None, old_library\<lparr>inventory := [snapshot_row 1700000000 (603, ''movie''),
                                          snapshot_row 1700000000 (87108, ''tv'')], step := 7\<rparr>)"
    by (simp add: UpdatePlexInventory_def example_defs old_library_def snapshot_row_def
        media_ok_def pkey_def)
  have b: "UpdatePlexInventory frozen_env [(603, ''movie''), (87108, ''tv''), (603, ''movie'')] old_library
     = (Some ConstraintFailed, old_library\<lparr>step := 7\<rparr>)"
    by (simp add: UpdatePlexInventory_def example_defs old_library_def snapshot_row_def
        media_ok_def pkey_def)
  from inventory_replace_all_or_nothing[OF a] inventory_replace_all_or_nothing[OF b] a b
  show ?thesis by simp
qed

section \<open>The catalog client\<close>

lemma getCached_miss:
  assumes "fst (getCached e title year mediaType w) = None"
  shows "getCached e title year mediaType w = (None, tick w)"
  using assms snd_getCached[of e title year mediaType w]
  by (cases "getCached e title year mediaType w") simp

lemma searchMovie_found:
  assumes "GetSearchMovies e (step w) title year = Inr (h # hs)"
  shows "\<exists>result. fst (searchMovie e title year w) = Inr result
      \<and> r_TMDbID result = hit_ID h \<and> r_Title result = hit_Name h
      \<and> r_Year result = year \<and> r_MediaType result = ''movie''
      \<and> (isl (GetMovieDetails e (step w + 1) (hit_ID h)) \<longrightarrow>
            r_IMDbID result = [] \<and> r_RuntimeMin result = 0 \<and> r_Genres result = []
            \<and> r_Country result = [])
      \<and> (isl (GetMovieKeywords e (step w + 2) (hit_ID h)) \<longrightarrow> r_Keywords result = [])"
  using assms
  by (cases "GetMovieDetails e (Suc (step w)) (hit_ID h)";
      cases "GetMovieKeywords e (Suc (Suc (step w))) (hit_ID h)")
    (simp_all add: searchMovie_def Let_def keyword_list_def)

lemma searchTV_found:
  assumes "GetSearchTVShow e (step w) title year = Inr (h # hs)"
  shows "\<exists>result. fst (searchTV e title year w) = Inr result
      \<and> r_TMDbID result = hit_ID h \<and> r_Title result = hit_Name h
      \<and> r_Year result = year \<and> r_MediaType result = ''tv''
      \<and> (isl (GetTVDetails e (step w + 1) (hit_ID h)) \<longrightarrow>
            r_RuntimeMin result = 0 \<and> r_Genres result = [] \<and> r_Country result = [])
      \<and> (isl (GetTVKeywords e (step w + 2) (hit_ID h)) \<longrightarrow> r_Keywords result = [])"
  using assms
  by (cases "GetTVDetails e (Suc (step w)) (hit_ID h)";
      cases "GetTVKeywords e (Suc (Suc (step w))) (hit_ID h)")
    (simp_all add: searchTV_def Let_def keyword_list_def)

lemma SearchAndResolve_miss_movie:
  assumes "fst (getCached e title year ''movie'' w) = None"
  shows "fst (SearchAndResolve e title year ''movie'' w) = fst (searchMovie e title year (tick w))"
  using getCached_miss[OF assms]
  by (cases "searchMovie e title year (tick w)")
    (simp add: SearchAndResolve_def split: sum.splits)

lemma SearchAndResolve_miss_tv:
  assumes "fst (getCached e title year ''tv'' w) = None"
  shows "fst (SearchAndResolve e title year ''tv'' w) = fst (searchTV e title year (tick w))"
  using getCached_miss[OF assms]
  by (cases "searchTV e title year (tick w)")
    (simp add: SearchAndResolve_def split: sum.splits)

text \<open>
  C8. On a cache miss, when the primary search returns at least one hit, the resolver
  returns a result for the first hit whether or not the details call and the keywords
  call fail: a failed details call leaves external id, runtime, genres and country
  empty, a failed keywords call leaves the keywords empty. For movies and for shows.
  (The cache read is the effect \<open>step w\<close>; the search, the details call and the keywords
  call are the three effects after it.)
\<close>

theorem partial_enrichment_still_resolves:
  assumes miss: "fst (getCached e title year mediaType w) = None"
  shows "(mediaType = ''movie'' \<and> GetSearchMovies e (step w + 1) title year = Inr (h # hs) \<longrightarrow>
           (\<exists>result. fst (SearchAndResolve e title year mediaType w) = Inr result
              \<and> r_TMDbID result = hit_ID h
              \<and> (isl (GetMovieDetails e (step w + 2) (hit_ID h)) \<longrightarrow>
                    r_IMDbID result = [] \<and> r_RuntimeMin result = 0 \<and> r_Genres result = []
                    \<and> r_Country result = [])
              \<and> (isl (GetMovieKeywords e (step w + 3) (hit_ID h)) \<longrightarrow> r_Keywords result = [])))
       \<and> (mediaType = ''tv'' \<and> GetSearchTVShow e (step w + 1) title year = Inr (h # hs) \<longrightarrow>
           (\<exists>result. fst (SearchAndResolve e title year mediaType w) = Inr result
              \<and> r_TMDbID result = hit_ID h
              \<and> (isl (GetTVDetails e (step w + 2) (hit_ID h)) \<longrightarrow>
                    r_RuntimeMin result = 0 \<and> r_Genres result = [] \<and> r_Country result = [])
              \<and> (isl (GetTVKeywords e (step w + 3) (hit_ID h)) \<longrightarrow> r_Keywords result = [])))"
proof (intro conjI impI)
  assume a: "mediaType = ''movie'' \<and> GetSearchMovies e (step w + 1) title year = Inr (h # hs)"
  with miss have "fst (SearchAndResolve e title year mediaType w)
      = fst (searchMovie e title year (tick w))"
    by (simp add: SearchAndResolve_miss_movie)
  with searchMovie_found[of e "tick w" title year h hs] a
  show "\<exists>result. fst (SearchAndResolve e title year mediaType w) = Inr result
              \<and> r_TMDbID result = hit_ID h
              \<and> (isl (GetMovieDetails e (step w + 2) (hit_ID h)) \<longrightarrow>
                    r_IMDbID result = [] \<and> r_RuntimeMin result = 0 \<and> r_Genres result = []
                    \<and> r_Country result = [])
              \<and> (isl (GetMovieKeywords e (step w + 3) (hit_ID h)) \<longrightarrow> r_Keywords result = [])"
    by (auto simp: numeral_2_eq_2 numeral_3_eq_3)
next
  assume a: "mediaType = ''tv'' \<and> GetSearchTVShow e (step w + 1) title year = Inr (h # hs)"
  with miss have "fst (SearchAndResolve e title year mediaType w)
      = fst (searchTV e title year (tick w))"
    by (simp add: SearchAndResolve_miss_tv)
  with searchTV_found[of e "tick w" title year h hs] a
  show "\<exists>result. fst (SearchAndResolve e title year mediaType w) = Inr result
              \<and> r_TMDbID result = hit_ID h
              \<and> (isl (GetTVDetails e (step w + 2) (hit_ID h)) \<longrightarrow>
                    r_RuntimeMin result = 0 \<and> r_Genres result = [] \<and> r_Country result = [])
              \<and> (isl (GetTVKeywords e (step w + 3) (hit_ID h)) \<longrightarrow> r_Keywords result = [])"
    by (auto simp: numeral_2_eq_2 numeral_3_eq_3)
qed

lemmas partial_defs = partial_env_def example_defs

theorem partial_enrichment_still_resolves_witness:
  "fst (getCached partial_env ''Inside Job'' 2010 ''movie'' empty_world) = None
   \<and> GetSearchMovies partial_env (step empty_world + 1) ''Inside Job'' 2010
       = Inr (hit 44639 ''Inside Job'' # [])
   \<and> \<not> isl (GetMovieDetails partial_env (step empty_world + 2) (hit_ID (hit 44639 ''Inside Job'')))
   \<and> isl (GetMovieKeywords partial_env (step empty_world + 3) (hit_ID (hit 44639 ''Inside Job'')))
   \<and> (\<exists>result. fst (SearchAndResolve partial_env ''Inside Job'' 2010 ''movie'' empty_world) = Inr result
         \<and> r_TMDbID result = 44639 \<and> r_Keywords result = [])
   \<and> fst (getCached partial_env ''Chernobyl'' 2019 ''tv'' empty_world) = None
   \<and> GetSearchTVShow partial_env (step empty_world + 1) ''Chernobyl'' 2019
       = Inr (hit 87108 ''Chernobyl'' # [])
   \<and> isl (GetTVDetails partial_env (step empty_world + 2) (hit_ID (hit 87108 ''Chernobyl'')))
   \<and> \<not> isl (GetTVKeywords partial_env (step empty_world + 3) (hit_ID (hit 87108 ''Chernobyl'')))
   \<and> (\<exists>result. fst (SearchAndResolve partial_env ''Chernobyl'' 2019 ''tv'' empty_world) = Inr result
         \<and> r_TMDbID result = 87108 \<and> r_RuntimeMin result = 0 \<and> r_Genres result = []
         \<and> r_Country result = [])"
proof -
  have m: "fst (getCached partial_env ''Inside Job'' 2010 ''movie'' empty_world) = None"
    and t: "fst (getCached partial_env ''Chernobyl'' 2019 ''tv'' empty_world) = None"
    by (simp_all add: getCached_def GetTitleResolution_def partial_defs)
  have facts: "GetSearchMovies partial_env (step empty_world + 1) ''Inside Job'' 2010
       = Inr (hit 44639 ''Inside Job'' # [])"
    "\<not> isl (GetMovieDetails partial_env (step empty_world + 2) (hit_ID (hit 44639 ''Inside Job'')))"
    "isl (GetMovieKeywords partial_env (step empty_world + 3) (hit_ID (hit 44639 ''Inside Job'')))"
    "GetSearchTVShow partial_env (step empty_world + 1) ''Chernobyl'' 2019
       = Inr (hit 87108 ''Chernobyl'' # [])"
    "isl (GetTVDetails partial_env (step empty_world + 2) (hit_ID (hit 87108 ''Chernobyl'')))"
    "\<not> isl (GetTVKeywords partial_env (step empty_world + 3) (hit_ID (hit 87108 ''Chernobyl'')))"
    by (simp_all add: partial_defs)
  have hid: "hit_ID (hit 44639 ''Inside Job'') = 44639" "hit_ID (hit 87108 ''Chernobyl'') = 87108"
    by (simp_all add: hit_def)
  from partial_enrichment_still_resolves[OF m, of "hit 44639 ''Inside Job''" "[]"]
    partial_enrichment_still_resolves[OF t, of "hit 87108 ''Chernobyl''" "[]"]
    m t facts
  show ?thesis unfolding hid by auto
qed

text \<open>
  C4, at a failing input. The query "inside job" (2010, movie) resolves and writes a
  cache row, but the row is stored under the catalog's title "Inside Job"; the same
  query finds no row under "inside job" and searches the catalog a second time.
\<close>

theorem lowercase_query_searches_twice:
  "SearchAndResolve frozen_env ''inside job'' 2010 ''movie'' empty_world
     = (Inr inside_job_result, inside_job_cached)
   \<and> length (cache inside_job_cached) = 1
   \<and> fst (SearchAndResolve frozen_env ''inside job'' 2010 ''movie'' inside_job_cached)
     = Inr inside_job_result
   \<and> calls (snd (SearchAndResolve frozen_env ''inside job'' 2010 ''movie'' inside_job_cached))
     = inside_job_searches @ inside_job_searches"
  by (simp add: run_defs example_defs inside_job_result_def inside_job_cached_def
      inside_job_searches_def)

section \<open>Failed history writes\<close>

lemma forget_history_simps [simp]:
  "cache (forget_history w) = cache w" "inventory (forget_history w) = inventory w"
  "calls (forget_history w) = calls w" "step (forget_history w) = step w"
  "history (forget_history w) = []"
  "forget_history (tick w) = tick (forget_history w)"
  "forget_history (log_call c w) = log_call c (forget_history w)"
  by (simp_all add: forget_history_def tick_def log_call_def)

lemma forget_eqD:
  assumes "forget_history w = forget_history w'"
  shows "cache w = cache w'" "inventory w = inventory w'" "calls w = calls w'" "step w = step w'"
proof -
  have "cache (forget_history w) = cache (forget_history w')"
    "inventory (forget_history w) = inventory (forget_history w')"
    "calls (forget_history w) = calls (forget_history w')"
    "step (forget_history w) = step (forget_history w')"
    using assms by simp_all
  then show "cache w = cache w'" "inventory w = inventory w'" "calls w = calls w'"
    "step w = step w'" by simp_all
qed

lemma other_faults [simp]:
  "clock (with_history_write_faults f e) = clock e"
  "utc_offset (with_history_write_faults f e) = utc_offset e"
  "ToLower (with_history_write_faults f e) = ToLower e"
  "GetSearchMovies (with_history_write_faults f e) = GetSearchMovies e"
  "GetMovieDetails (with_history_write_faults f e) = GetMovieDetails e"
  "GetMovieKeywords (with_history_write_faults f e) = GetMovieKeywords e"
  "GetSearchTVShow (with_history_write_faults f e) = GetSearchTVShow e"
  "GetTVDetails (with_history_write_faults f e) = GetTVDetails e"
  "GetTVKeywords (with_history_write_faults f e) = GetTVKeywords e"
  "op \<noteq> HistoryUpsert \<Longrightarrow> db_fails (with_history_write_faults f e) op = db_fails e op"
  by (simp_all add: with_history_write_faults_def)

lemma normalize_medium_faults [simp]:
  "normalize_medium (with_history_write_faults f e) m = normalize_medium e m"
  by (simp add: normalize_medium_def)

lemma local_since_faults [simp]:
  "local_since (with_history_write_faults f e) w = local_since e w"
  by (simp add: local_since_def)

lemma getCached_faults [simp]:
  "getCached (with_history_write_faults f e) t y m w = getCached e t y m w"
  by (simp add: getCached_def GetTitleResolution_def)

lemma searchMovie_faults [simp]:
  "searchMovie (with_history_write_faults f e) t y w = searchMovie e t y w"
  by (simp add: searchMovie_def Let_def cong: sum.case_cong list.case_cong)

lemma searchTV_faults [simp]:
  "searchTV (with_history_write_faults f e) t y w = searchTV e t y w"
  by (simp add: searchTV_def Let_def cong: sum.case_cong list.case_cong)

lemma cacheResult_faults [simp]:
  "cacheResult (with_history_write_faults f e) r w = cacheResult e r w"
  by (simp add: cacheResult_def CacheTitleResolution_def)

lemma SearchAndResolve_faults [simp]:
  "SearchAndResolve (with_history_write_faults f e) t y m w = SearchAndResolve e t y m w"
  by (simp add: SearchAndResolve_def split: prod.splits option.splits sum.splits)

lemma IsInPlexInventory_faults [simp]:
  "IsInPlexInventory (with_history_write_faults f e) i m w = IsInPlexInventory e i m w"
  by (simp add: IsInPlexInventory_def)

lemma GetRecommendationsSince_faults [simp]:
  "GetRecommendationsSince (with_history_write_faults f e) l s w = GetRecommendationsSince e l s w"
  by (simp add: GetRecommendationsSince_def)

text \<open>None of the calls of the loop reads the history table.\<close>

lemma getCached_forget:
  "getCached e t y m (forget_history w) = (fst (getCached e t y m w), forget_history (snd (getCached e t y m w)))"
  by (simp add: getCached_def GetTitleResolution_def split: option.splits)

lemma searchMovie_forget:
  "searchMovie e t y (forget_history w) = (fst (searchMovie e t y w), forget_history (snd (searchMovie e t y w)))"
  by (simp add: searchMovie_def Let_def split: sum.splits list.splits)

lemma searchTV_forget:
  "searchTV e t y (forget_history w) = (fst (searchTV e t y w), forget_history (snd (searchTV e t y w)))"
  by (simp add: searchTV_def Let_def split: sum.splits list.splits)

lemma cacheResult_forget:
  "cacheResult e r (forget_history w) = forget_history (cacheResult e r w)"
  by (simp add: cacheResult_def CacheTitleResolution_def Let_def forget_history_def tick_def)

lemma SearchAndResolve_forget:
  "SearchAndResolve e t y m (forget_history w)
    = (fst (SearchAndResolve e t y m w), forget_history (snd (SearchAndResolve e t y m w)))"
proof -
  obtain c w1 where g: "getCached e t y m w = (c, w1)" by (cases "getCached e t y m w")
  obtain a w2 where sm: "searchMovie e t y w1 = (a, w2)" by (cases "searchMovie e t y w1")
  obtain b w3 where st: "searchTV e t y w1 = (b, w3)" by (cases "searchTV e t y w1")
  show ?thesis
    using g sm st
    by (simp add: SearchAndResolve_def getCached_forget searchMovie_forget searchTV_forget
        cacheResult_forget split: option.splits sum.splits)
qed

lemma IsInPlexInventory_forget:
  "IsInPlexInventory e i m (forget_history w)
    = (fst (IsInPlexInventory e i m w), forget_history (snd (IsInPlexInventory e i m w)))"
  by (simp add: IsInPlexInventory_def)

lemma RecordRecommendation_forget:
  "forget_history (snd (RecordRecommendation e l i m w)) = tick (forget_history w)"
  by (simp add: RecordRecommendation_def Let_def forget_history_def tick_def)

lemma SearchAndResolve_same:
  assumes "forget_history w = forget_history w'"
  shows "fst (SearchAndResolve e t y m w) = fst (SearchAndResolve e t y m w')"
    and "forget_history (snd (SearchAndResolve e t y m w)) = forget_history (snd (SearchAndResolve e t y m w'))"
proof -
  have "SearchAndResolve e t y m (forget_history w) = SearchAndResolve e t y m (forget_history w')"
    using assms by simp
  then show "fst (SearchAndResolve e t y m w) = fst (SearchAndResolve e t y m w')"
    and "forget_history (snd (SearchAndResolve e t y m w)) = forget_history (snd (SearchAndResolve e t y m w'))"
    by (simp_all add: SearchAndResolve_forget)
qed

lemma IsInPlexInventory_same:
  assumes "forget_history w = forget_history w'"
  shows "fst (IsInPlexInventory e i m w) = fst (IsInPlexInventory e i m w')"
  using forget_eqD[OF assms] by (simp add: IsInPlexInventory_def)

lemma resolve_one_forget:
  assumes "forget3 st = forget3 st'"
  shows "forget3 (resolve_one (with_history_write_faults f e) cat rec st)
       = forget3 (resolve_one e cat rec st')"
proof -
  let ?m = "normalize_medium e (rec_Medium rec)"
  obtain w seen out where st: "st = (w, seen, out)" by (cases st)
  obtain w' seen' out' where st': "st' = (w', seen', out')" by (cases st')
  from assms st st' have eq: "forget_history w = forget_history w'" "seen' = seen" "out' = out"
    by (simp_all add: forget3_def)
  obtain res w1 where sr: "SearchAndResolve e (rec_Title rec) (rec_Year rec) ?m w = (res, w1)"
    by (cases "SearchAndResolve e (rec_Title rec) (rec_Year rec) ?m w")
  obtain res' w1' where sr': "SearchAndResolve e (rec_Title rec) (rec_Year rec) ?m w' = (res', w1')"
    by (cases "SearchAndResolve e (rec_Title rec) (rec_Year rec) ?m w'")
  from SearchAndResolve_same[OF eq(1), of e "rec_Title rec" "rec_Year rec" ?m] sr sr'
  have res: "res' = res" and w1: "forget_history w1 = forget_history w1'" by simp_all
  show ?thesis
  proof (cases res)
    case (Inl er)
    with sr sr' res w1 st st' eq show ?thesis
      by (simp add: resolve_one_def Let_def forget3_def)
  next
    case (Inr result)
    obtain inPlex er w2 where ip: "IsInPlexInventory e (r_TMDbID result) ?m w1 = ((inPlex, er), w2)"
      by (cases "IsInPlexInventory e (r_TMDbID result) ?m w1") auto
    obtain inPlex' er' w2' where ip': "IsInPlexInventory e (r_TMDbID result) ?m w1' = ((inPlex', er'), w2')"
      by (cases "IsInPlexInventory e (r_TMDbID result) ?m w1'") auto
    from ip have "w2 = snd (IsInPlexInventory e (r_TMDbID result) ?m w1)" by simp
    then have w2: "w2 = tick w1" by simp
    from ip' have "w2' = snd (IsInPlexInventory e (r_TMDbID result) ?m w1')" by simp
    then have w2': "w2' = tick w1'" by simp
    from IsInPlexInventory_same[OF w1, of e "r_TMDbID result" ?m] ip ip'
    have same: "inPlex' = inPlex" by simp
    have t: "forget_history (tick w1) = forget_history (tick w1')" using w1 by simp
    from Inr sr sr' res w1 st st' eq ip ip' same w2 w2' t show ?thesis
      by (simp add: resolve_one_def Let_def forget3_def RecordRecommendation_forget)
  qed
qed

lemma resolve_all_forget:
  "forget3 st = forget3 st' \<Longrightarrow>
   forget3 (resolve_all (with_history_write_faults f e) cat recs st)
     = forget3 (resolve_all e cat recs st')"
proof (induction recs arbitrary: st st')
  case Nil
  then show ?case by simp
next
  case (Cons rec recs)
  from resolve_one_forget[OF Cons.prems, of f e cat rec] Cons.IH show ?case by simp
qed

lemma resolve_one_extends:
  "\<exists>rest. snd (snd (resolve_one e cat rec st)) = snd (snd st) @ rest"
proof -
  obtain w seen out where st: "st = (w, seen, out)" by (cases st)
  obtain w' seen' out' where r: "resolve_one e cat rec (w, seen, out) = (w', seen', out')"
    by (cases "resolve_one e cat rec (w, seen, out)")
  from r show ?thesis
    by (cases rule: resolve_one_cases) (simp_all add: st r)
qed

lemma resolve_all_extends:
  "\<exists>rest. snd (snd (resolve_all e cat recs st)) = snd (snd st) @ rest"
proof (induction recs arbitrary: st)
  case Nil
  then show ?case by simp
next
  case (Cons rec recs)
  from resolve_one_extends[of e cat rec st]
  obtain a where a: "snd (snd (resolve_one e cat rec st)) = snd (snd st) @ a" by blast
  from Cons.IH[of "resolve_one e cat rec st"]
  obtain b where "snd (snd (resolve_all e cat recs (resolve_one e cat rec st)))
      = snd (snd (resolve_one e cat rec st)) @ b" by blast
  with a show ?case by simp
qed

lemma failing_write_run:
  "Resolve (with_history_write_faults always_fails frozen_env) chernobyl_twice ''Docudrama''
     empty_world
     = (Inr \<lparr>o_Category = ''Docudrama'', o_ResolvedAt = 1700000000,
             o_Items = [plain_item ''Chernobyl'' 2019 ''tv'' 87108]\<rparr>,
        chernobyl_world\<lparr>history := []\<rparr>)"
  by (simp add: run_defs example_defs chernobyl_twice_def chernobyl_world_def
      with_history_write_faults_def always_fails_def)

text \<open>
  C9. What \<open>Resolve\<close> returns does not depend on which history writes fail: with the
  writes failing as any \<open>f\<close> says, the result (the output with its items, or the error)
  is the one of the run in which they fail as the environment says. And the loop only
  appends: an item once in \<open>resolved\<close> is in \<open>resolved\<close> at the end of the loop.
\<close>

theorem failed_history_write_keeps_item:
  "fst (Resolve (with_history_write_faults f e) recs cat w) = fst (Resolve e recs cat w)
   \<and> (\<exists>rest. snd (snd (resolve_all e cat recs (w, seen, resolved @ [item])))
                = resolved @ [item] @ rest)"
proof -
  let ?e = "with_history_write_faults f e"
  have l: "loaded ?e cat w = loaded e cat w" by (simp add: loaded_def)
  have "forget3 (loop_end ?e recs cat w) = forget3 (loop_end e recs cat w)"
    unfolding loop_end_def l by (rule resolve_all_forget) simp
  then have "survivors ?e recs cat w = survivors e recs cat w"
    and "step (fst (loop_end ?e recs cat w)) = step (fst (loop_end e recs cat w))"
    using forget_eqD(4)[of "fst (loop_end ?e recs cat w)" "fst (loop_end e recs cat w)"]
    by (cases "loop_end ?e recs cat w"; cases "loop_end e recs cat w";
        simp add: forget3_def survivors_def)+
  then have "fst (Resolve ?e recs cat w) = fst (Resolve e recs cat w)"
    by (simp add: Resolve_eq)
  moreover from resolve_all_extends[of e cat recs "(w, seen, resolved @ [item])"]
  have "\<exists>rest. snd (snd (resolve_all e cat recs (w, seen, resolved @ [item])))
                = resolved @ [item] @ rest" by simp
  ultimately show ?thesis by blast
qed

theorem failed_history_write_keeps_item_witness:
  "fst (Resolve (with_history_write_faults always_fails frozen_env) chernobyl_twice ''Docudrama''
         empty_world)
     = Inr \<lparr>o_Category = ''Docudrama'', o_ResolvedAt = 1700000000,
            o_Items = [plain_item ''Chernobyl'' 2019 ''tv'' 87108]\<rparr>
   \<and> history (snd (Resolve (with_history_write_faults always_fails frozen_env) chernobyl_twice
         ''Docudrama'' empty_world)) = []"
  using failed_history_write_keeps_item[of always_fails frozen_env chernobyl_twice
      "''Docudrama''" empty_world] chernobyl_run failing_write_run
  by simp

section \<open>Running the pipeline twice\<close>

lemma steady_catalogD:
  assumes "steady_catalog e"
  shows "GetSearchMovies e n = GetSearchMovies e 0" "GetMovieDetails e n = GetMovieDetails e 0"
    "GetMovieKeywords e n = GetMovieKeywords e 0" "GetSearchTVShow e n = GetSearchTVShow e 0"
    "GetTVDetails e n = GetTVDetails e 0" "GetTVKeywords e n = GetTVKeywords e 0"
  using assms unfolding steady_catalog_def by blast+

lemma searchMovie_pure:
  assumes "steady_catalog e"
  shows "fst (searchMovie e t y w) = fst (searchMovie e t y w')"
proof -
  have "GetSearchMovies e (step w) = GetSearchMovies e (step w')"
    "GetMovieDetails e (Suc (step w)) = GetMovieDetails e (Suc (step w'))"
    "GetMovieKeywords e (Suc (Suc (step w))) = GetMovieKeywords e (Suc (Suc (step w')))"
    using steady_catalogD(1)[OF assms, of "step w"] steady_catalogD(1)[OF assms, of "step w'"]
      steady_catalogD(2)[OF assms, of "Suc (step w)"]
      steady_catalogD(2)[OF assms, of "Suc (step w')"]
      steady_catalogD(3)[OF assms, of "Suc (Suc (step w))"]
      steady_catalogD(3)[OF assms, of "Suc (Suc (step w'))"]
    by simp_all
  then show ?thesis
    by (simp add: searchMovie_def Let_def split: sum.splits list.splits)
qed

lemma searchTV_pure:
  assumes "steady_catalog e"
  shows "fst (searchTV e t y w) = fst (searchTV e t y w')"
proof -
  have "GetSearchTVShow e (step w) = GetSearchTVShow e (step w')"
    "GetTVDetails e (Suc (step w)) = GetTVDetails e (Suc (step w'))"
    "GetTVKeywords e (Suc (Suc (step w))) = GetTVKeywords e (Suc (Suc (step w')))"
    using steady_catalogD(4)[OF assms, of "step w"] steady_catalogD(4)[OF assms, of "step w'"]
      steady_catalogD(5)[OF assms, of "Suc (step w)"]
      steady_catalogD(5)[OF assms, of "Suc (step w')"]
      steady_catalogD(6)[OF assms, of "Suc (Suc (step w))"]
      steady_catalogD(6)[OF assms, of "Suc (Suc (step w'))"]
    by simp_all
  then show ?thesis
    by (simp add: searchTV_def Let_def split: sum.splits list.splits)
qed

lemma searchMovie_fields:
  "fst (searchMovie e t y w) = Inr r \<Longrightarrow> r_MediaType r = ''movie'' \<and> r_Year r = y"
  by (auto simp: searchMovie_def Let_def split: sum.splits list.splits)

lemma searchTV_fields:
  "fst (searchTV e t y w) = Inr r \<Longrightarrow> r_MediaType r = ''tv'' \<and> r_Year r = y"
  by (auto simp: searchTV_def Let_def split: sum.splits list.splits)

lemma fresh_fields:
  assumes "fresh e t y m = Inr r"
  shows "r_MediaType r = m" "r_Year r = y" "media_ok m"
  using assms searchMovie_fields[of e t y empty_world r] searchTV_fields[of e t y empty_world r]
  by (auto simp: fresh_def media_ok_def split: if_splits)


lemma latest_None [simp]: "(latest rows = None) = (rows = [])"
  by (cases rows) (auto split: option.splits)


text \<open>
  What \<open>SearchAndResolve\<close> does when the cache read does not fail. A cache write may
  fail: the cache is then left as it was.
\<close>

lemma SearchAndResolve_hit:
  assumes "\<not> db_fails e CacheSelect (step w)"
    and "latest (filter (cache_match t y m) (cache w)) = Some row"
  shows "SearchAndResolve e t y m w = (Inr (cached_result (fst row)), tick w)"
  using assms by (simp add: SearchAndResolve_def getCached_def GetTitleResolution_def)

lemma cacheResult_cases:
  "cache (cacheResult e r w) = cache w
   \<or> cache (cacheResult e r w) = cache w @ [(resolution_of r, clock e (step w))]"
  by (simp add: cacheResult_def CacheTitleResolution_def Let_def tick_def)

lemma SearchAndResolve_miss:
  assumes cs: "\<not> db_fails e CacheSelect (step w)"
    and steady: "steady_catalog e"
    and miss: "filter (cache_match t y m) (cache w) = []"
  shows "fst (SearchAndResolve e t y m w) = fresh e t y m"
    and "cache (snd (SearchAndResolve e t y m w)) = cache w
       \<or> (\<exists>r t'. fresh e t y m = Inr r
            \<and> cache (snd (SearchAndResolve e t y m w)) = cache w @ [(resolution_of r, t')])"
proof -
  have g: "getCached e t y m w = (None, tick w)"
    using cs miss by (simp add: getCached_def GetTitleResolution_def)
  obtain a w2 where sm: "searchMovie e t y (tick w) = (a, w2)"
    by (cases "searchMovie e t y (tick w)")
  obtain b w3 where st: "searchTV e t y (tick w) = (b, w3)"
    by (cases "searchTV e t y (tick w)")
  have a: "fst (searchMovie e t y empty_world) = a"
    using searchMovie_pure[OF steady, of t y empty_world "tick w"] sm by simp
  have b: "fst (searchTV e t y empty_world) = b"
    using searchTV_pure[OF steady, of t y empty_world "tick w"] st by simp
  from sm have "w2 = snd (searchMovie e t y (tick w))" by simp
  then have c2: "cache w2 = cache w" by simp
  from st have "w3 = snd (searchTV e t y (tick w))" by simp
  then have c3: "cache w3 = cache w" by simp
  show "fst (SearchAndResolve e t y m w) = fresh e t y m"
    using g sm st a b by (simp add: SearchAndResolve_def fresh_def split: sum.splits)
  show "cache (snd (SearchAndResolve e t y m w)) = cache w
       \<or> (\<exists>r t'. fresh e t y m = Inr r
            \<and> cache (snd (SearchAndResolve e t y m w)) = cache w @ [(resolution_of r, t')])"
  proof (cases "fresh e t y m")
    case (Inl er)
    then have "cache (snd (SearchAndResolve e t y m w)) = cache w"
      using g sm st a b c2 c3
      by (auto simp: SearchAndResolve_def fresh_def split: sum.splits if_splits)
    then show ?thesis by simp
  next
    case (Inr r)
    let ?v = "if m = ''movie'' then w2 else w3"
    have "snd (SearchAndResolve e t y m w) = cacheResult e r ?v"
      using Inr g sm st a b
      by (auto simp: SearchAndResolve_def fresh_def split: sum.splits if_splits)
    with cacheResult_cases[of e r ?v] c2 c3 Inr show ?thesis by auto
  qed
qed

lemma cached_result_id [simp]: "r_TMDbID (cached_result c) = c_TMDbID c"
  by (simp add: cached_result_def)

lemma resolution_of_fields [simp]:
  "c_TMDbID (resolution_of r) = r_TMDbID r"
  "c_MediaType (resolution_of r) = r_MediaType r"
  by (simp_all add: resolution_of_def)






















text \<open>
  The reads matter as well. When the history load of the second run fails, the set
  loaded is empty and the show of the first run is returned again. When the inventory
  lookup of the second run fails, a show the first run skipped as present in the library
  is returned. When the cache read of the first run fails, the first run records the id
  the catalog answers, and the second run returns the id the cache holds.
\<close>

lemma rerun_after_failed_reads:
  "Resolve reload_fails_env chernobyl_twice ''Docudrama'' empty_world
     = (Inr \<lparr>o_Category = ''Docudrama'', o_ResolvedAt = 1700000000,
             o_Items = [plain_item ''Chernobyl'' 2019 ''tv'' 87108]\<rparr>, chernobyl_world)"
  "fst (Resolve reload_fails_env chernobyl_twice ''Docudrama'' chernobyl_world)
     = Inr \<lparr>o_Category = ''Docudrama'', o_ResolvedAt = 1700000000,
            o_Items = [plain_item ''Chernobyl'' 2019 ''tv'' 87108]\<rparr>"
  "fst (Resolve lookup_fails_env chernobyl_once ''Docudrama'' library_world)
     = Inl NoRecommendationsResolved"
  "fst (Resolve lookup_fails_env chernobyl_once ''Docudrama''
          (snd (Resolve lookup_fails_env chernobyl_once ''Docudrama'' library_world)))
     = Inr \<lparr>o_Category = ''Docudrama'', o_ResolvedAt = 1700000000,
            o_Items = [plain_item ''Chernobyl'' 2019 ''tv'' 87108]\<rparr>"
  "fst (Resolve cache_fails_env chernobyl_once ''Docudrama'' stale_cache_world)
     = Inr \<lparr>o_Category = ''Docudrama'', o_ResolvedAt = 1700000000,
            o_Items = [plain_item ''Chernobyl'' 2019 ''tv'' 87108]\<rparr>"
  "fst (Resolve cache_fails_env chernobyl_once ''Docudrama''
          (snd (Resolve cache_fails_env chernobyl_once ''Docudrama'' stale_cache_world)))
     = Inr \<lparr>o_Category = ''Docudrama'', o_ResolvedAt = 1700000000,
            o_Items = [plain_item ''Chernobyl'' 2019 ''tv'' 1]\<rparr>"
  by (simp_all add: run_defs example_defs reload_fails_env_def lookup_fails_env_def
      cache_fails_env_def chernobyl_twice_def chernobyl_once_def chernobyl_world_def
      library_world_def stale_cache_world_def)

text \<open>When the catalog's title is the queried title, the second call is a cache hit.\<close>

lemma repeated_query_hits_cache:
  assumes cs: "\<forall>n. \<not> db_fails e CacheSelect n"
    and steady: "steady_catalog e"
    and first: "SearchAndResolve e title year mediaType w = (Inr r, w1)"
    and wrote: "cache w1 \<noteq> cache w"
    and same_title: "r_Title r = title"
  shows "\<exists>r'. SearchAndResolve e title year mediaType w1 = (Inr r', tick w1)
      \<and> r_TMDbID r' = r_TMDbID r \<and> calls (tick w1) = calls w1"
proof -
  from cs have cs: "\<not> db_fails e CacheSelect (step w)" "\<not> db_fails e CacheSelect (step w1)"
    by blast+
  have miss: "filter (cache_match title year mediaType) (cache w) = []"
  proof (cases "latest (filter (cache_match title year mediaType) (cache w))")
    case None
    then show ?thesis by simp
  next
    case (Some row)
    from SearchAndResolve_hit[OF cs(1) Some] first have "w1 = tick w" by simp
    with wrote show ?thesis by simp
  qed
  from SearchAndResolve_miss(1)[OF cs(1) steady miss] first
  have fr: "fresh e title year mediaType = Inr r" by simp
  from first have "w1 = snd (SearchAndResolve e title year mediaType w)" by simp
  with SearchAndResolve_miss(2)[OF cs(1) steady miss] fr wrote
  obtain t' where c1: "cache w1 = cache w @ [(resolution_of r, t')]" by auto
  have "cache_match title year mediaType (resolution_of r, t')"
    using fresh_fields(1,2)[OF fr] same_title by (simp add: cache_match_def resolution_of_def)
  with miss c1 have "latest (filter (cache_match title year mediaType) (cache w1))
      = Some (resolution_of r, t')" by simp
  from SearchAndResolve_hit[OF cs(2) this] show ?thesis by simp
qed

section \<open>Deduplication by the id\<close>






end
